theory Spec2Isabelle
  imports Main "HOL-Library.AList"
begin

section \<open>Data model\<close>

text \<open>
  The controller of the GPU resource driver: \<open>cmd/dra-example-controller/gpu.go\<close> (the
  \<open>gpudriver\<close>) and the controller's \<open>driver\<close> (Allocate, Deallocate, UnsuitableNodes).
  A Go map that the code iterates over is an association list, read with \<open>map_of\<close> and
  written with \<open>AList.update\<close> and \<open>AList.delete\<close>; a Go map that is only indexed is a
  function. A Go \<open>int\<close> is an \<open>int\<close>: the code compares and counts, it never computes
  with the count. The per-node mutex is not modelled: every operation below is one critical
  section of one node, run to its end.
\<close>

text \<open>
  The declarations of the package \<open>nas/v1alpha1\<close> (the device kind tag, the devices of
  the inventory, the devices allocated to a claim, the node record and its status) are not
  among the sources. The sources read \<open>device.Gpu.UUID\<close>, \<open>allocation.Gpu.Devices\<close>,
  \<open>device.UUID\<close>, \<open>crd.Spec.AllocatableDevices\<close>, \<open>crd.Spec.AllocatedClaims\<close>,
  \<open>crd.Status\<close> and call \<open>Type()\<close>; the fields below are those.
\<close>

text \<open>
  Modelled from the spec: the kind tag of a device, which has one variant, GPU; the
  sources also have a default branch for any other tag.
\<close>

datatype DeviceType = GpuDeviceType | UnknownDeviceType

text \<open>
  Modelled from the spec: a device of the inventory is a kind tag and, for a GPU, a UUID.
  The sources read the GPU through a pointer, \<open>device.Gpu\<close>, which is nil for another kind.
\<close>

record AllocatableGpu =
  AllocatableGpu_UUID :: string

record AllocatableDevice =
  AllocatableDevice_Gpu :: "AllocatableGpu option"

text \<open>
  Modelled from the spec: the devices allocated to a claim are a union under the same kind
  tag, holding the list of the identities of the devices bound to the claim. The sources
  read the list through a pointer, \<open>allocation.Gpu.Devices\<close>, and build it with
  \<open>AllocatedDevices{Gpu: &AllocatedGpus{Devices: devices}}\<close>.
\<close>

record AllocatedGpu =
  AllocatedGpu_UUID :: string

record AllocatedGpus =
  Devices :: "AllocatedGpu list"

record AllocatedDevices =
  AllocatedDevices_Gpu :: "AllocatedGpus option"

text \<open>
  Modelled from the spec: \<open>Type()\<close> of a device of the inventory, the tag of the union:
  GPU when the GPU is set.
\<close>

definition AllocatableDevice_Type :: "AllocatableDevice \<Rightarrow> DeviceType" where
  "AllocatableDevice_Type d =
     (case AllocatableDevice_Gpu d of Some g \<Rightarrow> GpuDeviceType | None \<Rightarrow> UnknownDeviceType)"

text \<open>
  Modelled from the spec: \<open>Type()\<close> of the devices allocated to a claim, the tag of the
  union: GPU when the GPUs are set.
\<close>

definition AllocatedDevices_Type :: "AllocatedDevices \<Rightarrow> DeviceType" where
  "AllocatedDevices_Type d =
     (case AllocatedDevices_Gpu d of Some g \<Rightarrow> GpuDeviceType | None \<Rightarrow> UnknownDeviceType)"

text \<open>
  Modelled from the spec: the node record is a status, the inventory of the node and the
  map from claim to allocated devices (name and namespace are the key of the store below).
  \<open>AllocatedClaims\<close> is \<open>None\<close> for a nil map, which the sources test for.
\<close>

record NodeAllocationStateSpec =
  AllocatableDevices :: "AllocatableDevice list"
  AllocatedClaims :: "(string \<times> AllocatedDevices) list option"

record NodeAllocationState =
  Spec :: NodeAllocationStateSpec
  Status :: string

text \<open>
  Modelled from the spec: the status of a record is \<open>NotReady\<close> or \<open>Ready\<close>; the sources
  compare it with this constant.
\<close>

definition NodeAllocationStateStatusReady :: string where
  "NodeAllocationStateStatusReady = ''Ready''"

text \<open>Reading a Go map that may be nil: a nil map has no entry.\<close>

definition claims_of :: "NodeAllocationState \<Rightarrow> (string \<times> AllocatedDevices) list" where
  "claims_of crd = (case AllocatedClaims (Spec crd) of None \<Rightarrow> [] | Some m \<Rightarrow> m)"

text \<open>The Kubernetes objects the driver reads and builds, with the fields it uses.\<close>

record NodeSelectorRequirement =
  Key :: string
  Operator :: string
  Values :: "string list"

record NodeSelectorTerm =
  MatchExpressions :: "NodeSelectorRequirement list"
  MatchFields :: "NodeSelectorRequirement list"

record NodeSelector =
  NodeSelectorTerms :: "NodeSelectorTerm list"

record AllocationResult =
  AvailableOnNodes :: "NodeSelector option"
  Shareable :: bool

record ResourceClaimParametersReference =
  APIGroup :: string
  Kind :: string

record ResourceClaimSpec =
  ParametersRef :: "ResourceClaimParametersReference option"

record ResourceClaimStatus =
  Allocation :: "AllocationResult option"

record ResourceClaim =
  UID :: string
  ResourceClaim_Spec :: ResourceClaimSpec
  ResourceClaim_Status :: ResourceClaimStatus

record GpuClaimParametersSpec =
  Count :: int

text \<open>
  \<open>ClaimParameters\<close> is an \<open>interface{}\<close>: the driver tests it for a
  \<open>*GpuClaimParametersSpec\<close> and treats everything else alike.
\<close>

datatype ClaimParameters = GpuClaimParameters GpuClaimParametersSpec | OtherClaimParameters

text \<open>
  One constructor for each error the code builds; \<open>Panic\<close> is a run-time panic (a nil
  pointer or an index out of range), which no caller in these sources recovers, and
  \<open>is_panic\<close> tells it from the errors that are returned.
\<close>

datatype error =
    NotFound
  | StoreFailure string
  | InvalidCount int
  | NoAllocationsGenerated string string
  | ImmediateNotSupported
  | RetrievingCRD error
  | StatusNotReady string
  | UnknownParametersKind string
  | UnableToAllocate string error
  | UpdatingCRD error
  | UnknownAllocatedType DeviceType
  | UnableToDeallocate error
  | UnknownClaimParameters
  | Panic string

definition is_panic :: "error \<Rightarrow> bool" where
  "is_panic err = (case err of Panic msg \<Rightarrow> True | _ \<Rightarrow> False)"

record ClaimAllocation =
  Claim :: ResourceClaim
  ClaimParameters :: ClaimParameters
  UnsuitableNodes :: "string list"

section \<open>The cache of pending allocations\<close>

text \<open>
  Modelled from the spec: \<open>PerNodeAllocatedClaims\<close>, the type of
  \<open>gpudriver.PendingAllocatedClaims\<close>, is not among the sources. The spec keys its
  entries by claim: one entry at most for a claim, across the whole cache, holding the one
  candidate node and the devices proposed for the claim there. It is a Go map from the
  claim to the node and the devices; its internal lock is not modelled.
\<close>

type_synonym PerNodeAllocatedClaims = "(string \<times> string \<times> AllocatedDevices) list"

text \<open>Modelled from the spec: the cache of a new driver is empty.\<close>

definition NewPerNodeAllocatedClaims :: PerNodeAllocatedClaims where
  "NewPerNodeAllocatedClaims = []"

text \<open>Modelled from the spec: \<open>exists(claimId, nodeId) -> bool\<close>.\<close>

definition Exists :: "PerNodeAllocatedClaims \<Rightarrow> string \<Rightarrow> string \<Rightarrow> bool" where
  "Exists p claimUID node =
     (case map_of p claimUID of None \<Rightarrow> False | Some (n, devices) \<Rightarrow> n = node)"

text \<open>
  Modelled from the spec: \<open>get(claimId, nodeId) -> AllocatedDevices\<close>, undefined or an
  error if absent: \<open>None\<close> here.
\<close>

definition Get :: "PerNodeAllocatedClaims \<Rightarrow> string \<Rightarrow> string \<Rightarrow> AllocatedDevices option" where
  "Get p claimUID node =
     (case map_of p claimUID of
        None \<Rightarrow> None
      | Some (n, devices) \<Rightarrow> if n = node then Some devices else None)"

text \<open>
  Modelled from the spec: \<open>set(claimId, nodeId, devices)\<close> overwrites any prior entry for
  the claim regardless of its previous node.
\<close>

definition Set :: "PerNodeAllocatedClaims \<Rightarrow> string \<Rightarrow> string \<Rightarrow> AllocatedDevices \<Rightarrow> PerNodeAllocatedClaims" where
  "Set p claimUID node devices = AList.update claimUID (node, devices) p"

text \<open>
  Modelled from the spec: \<open>remove(claimId)\<close> clears the entry for the claim on whatever
  node it was staged on, and does nothing if there is none.
\<close>

definition Remove :: "PerNodeAllocatedClaims \<Rightarrow> string \<Rightarrow> PerNodeAllocatedClaims" where
  "Remove p claimUID = AList.delete claimUID p"

text \<open>
  Modelled from the spec: \<open>visit(nodeId, fn)\<close> invokes \<open>fn(claimId, devices)\<close> for every
  entry currently staged on the node. The visitor has a state of its own, which for the
  visitor of the gpudriver holds the cache: that visitor removes the entry it is called
  for and no other, so the entries still to visit are those of the cache as it was.
\<close>

definition VisitNode ::
  "PerNodeAllocatedClaims \<Rightarrow> string \<Rightarrow> (string \<Rightarrow> AllocatedDevices \<Rightarrow> 's \<Rightarrow> 's) \<Rightarrow> 's \<Rightarrow> 's" where
  "VisitNode p node visitor s =
     fold (\<lambda>(claimUID, n, allocation) s. if n = node then visitor claimUID allocation s else s) p s"

section \<open>The client of the node records\<close>

text \<open>
  \<open>client.Get\<close> and \<open>client.Update\<close> of \<open>nas/v1alpha1/client\<close> over the store of the
  records, one for a node name; the namespace is the one of the driver throughout.
  The transport can fail whatever the store holds: \<open>get_fault\<close> and \<open>update_fault\<close> are the
  error of the call, if it is to fail. \<open>Update\<close> replaces the spec of the record it read.
\<close>

type_synonym nas_store = "string \<Rightarrow> NodeAllocationState option"

record io =
  get_fault :: "error option"
  update_fault :: "error option"

definition client_Get :: "error option \<Rightarrow> nas_store \<Rightarrow> string \<Rightarrow> error + NodeAllocationState" where
  "client_Get fault store name =
     (case fault of
        Some err \<Rightarrow> Inl err
      | None \<Rightarrow> (case store name of None \<Rightarrow> Inl NotFound | Some crd \<Rightarrow> Inr crd))"

definition client_Update ::
  "error option \<Rightarrow> nas_store \<Rightarrow> string \<Rightarrow> NodeAllocationState \<Rightarrow> NodeAllocationStateSpec \<Rightarrow> nas_store \<times> error option" where
  "client_Update fault store name crd spec =
     (case fault of
        Some err \<Rightarrow> (store, Some err)
      | None \<Rightarrow> (store(name \<mapsto> crd\<lparr>Spec := spec\<rparr>), None))"

section \<open>gpudriver\<close>

definition ValidateClaimParameters :: "GpuClaimParametersSpec \<Rightarrow> error option" where
  "ValidateClaimParameters claimParams =
     (if Count claimParams < 1 then Some (InvalidCount (Count claimParams)) else None)"

text \<open>
  \<open>gpudriver.Allocate\<close> writes the pending allocation of the claim on the selected node
  into the record it is given and returns the callback that removes the pending entry.
  It is called after \<open>driver.allocate\<close> has made the map of the record.
\<close>

definition set_claim :: "NodeAllocationState \<Rightarrow> string \<Rightarrow> AllocatedDevices \<Rightarrow> NodeAllocationState" where
  "set_claim crd claimUID devices =
     crd\<lparr>Spec := (Spec crd)\<lparr>AllocatedClaims := Some (AList.update claimUID devices (claims_of crd))\<rparr>\<rparr>"

definition gpudriver_Allocate ::
  "PerNodeAllocatedClaims \<Rightarrow> NodeAllocationState \<Rightarrow> ResourceClaim \<Rightarrow> string
     \<Rightarrow> error + NodeAllocationState \<times> (PerNodeAllocatedClaims \<Rightarrow> PerNodeAllocatedClaims)" where
  "gpudriver_Allocate p crd claim selectedNode =
     (let claimUID = UID claim in
      if \<not> Exists p claimUID selectedNode
      then Inl (NoAllocationsGenerated claimUID selectedNode)
      else (case Get p claimUID selectedNode of
              None \<Rightarrow> Inl (Panic ''absent pending allocation'')
            | Some devices \<Rightarrow> Inr (set_claim crd claimUID devices, \<lambda>p. Remove p claimUID)))"

definition gpudriver_Deallocate ::
  "PerNodeAllocatedClaims \<Rightarrow> NodeAllocationState \<Rightarrow> ResourceClaim \<Rightarrow> PerNodeAllocatedClaims \<times> error option" where
  "gpudriver_Deallocate p crd claim = (Remove p (UID claim), None)"

subsection \<open>The allocator\<close>

text \<open>
  \<open>available\<close> is a Go map from UUID to device. The code takes a device from it with
  \<open>for _, device := range available { ...; break }\<close>, and the order of a Go range over
  a map is not fixed: \<open>pick\<close> chooses the position of the entry that comes first, for
  each state of the map. The two loops that fill the map switch on \<open>Type()\<close> and read
  the GPU in the GPU branch, where it is set.
\<close>

type_synonym available = "(string \<times> AllocatableGpu) list"
type_synonym pick = "available \<Rightarrow> nat"

fun add_available :: "AllocatableDevice list \<Rightarrow> available \<Rightarrow> available" where
  "add_available [] av = av"
| "add_available (device # ds) av =
     (case AllocatableDevice_Type device of
        GpuDeviceType \<Rightarrow>
          (case AllocatableDevice_Gpu device of
             Some g \<Rightarrow> add_available ds (AList.update (AllocatableGpu_UUID g) g av)
           | None \<Rightarrow> add_available ds av)
      | UnknownDeviceType \<Rightarrow> add_available ds av)"

fun delete_devices :: "AllocatedGpu list \<Rightarrow> available \<Rightarrow> available" where
  "delete_devices [] av = av"
| "delete_devices (device # ds) av = delete_devices ds (AList.delete (AllocatedGpu_UUID device) av)"

fun remove_allocated :: "(string \<times> AllocatedDevices) list \<Rightarrow> available \<Rightarrow> available" where
  "remove_allocated [] av = av"
| "remove_allocated ((claimUID, allocation) # rest) av =
     (case AllocatedDevices_Type allocation of
        GpuDeviceType \<Rightarrow>
          (case AllocatedDevices_Gpu allocation of
             Some g \<Rightarrow> remove_allocated rest (delete_devices (Devices g) av)
           | None \<Rightarrow> remove_allocated rest av)
      | UnknownDeviceType \<Rightarrow> remove_allocated rest av)"

text \<open>The loop \<open>for i := 0; i < claimParams.Count; i++\<close> with \<open>n\<close> rounds left.\<close>

fun take_devices :: "pick \<Rightarrow> nat \<Rightarrow> available \<Rightarrow> string list \<Rightarrow> available \<times> string list" where
  "take_devices pick 0 av devices = (av, devices)"
| "take_devices pick (Suc n) av devices =
     (if av = [] then take_devices pick n av devices
      else (let device = snd (av ! (pick av mod length av))
            in take_devices pick n
                 (AList.delete (AllocatableGpu_UUID device) av)
                 (devices @ [AllocatableGpu_UUID device])))"

text \<open>
  The loop over the claims of the batch. \<open>allocated\<close> is a Go map that is only indexed,
  and a missing key reads as the nil slice: it is a function, \<open>[]\<close> where nothing was stored.
  A committed claim whose entry is not of the GPU kind, and parameters that are not GPU
  parameters, are nil pointers that the code dereferences.
\<close>

fun allocate_claims ::
  "pick \<Rightarrow> (string \<times> AllocatedDevices) list \<Rightarrow> ClaimAllocation list \<Rightarrow> available
     \<Rightarrow> (string \<Rightarrow> string list) \<Rightarrow> error + (string \<Rightarrow> string list)" where
  "allocate_claims pick ac [] av allocated = Inr allocated"
| "allocate_claims pick ac (ca # cas) av allocated =
     (let claimUID = UID (Claim ca) in
      case map_of ac claimUID of
        Some allocation \<Rightarrow>
          (case AllocatedDevices_Gpu allocation of
             None \<Rightarrow> Inl (Panic ''nil pointer dereference'')
           | Some g \<Rightarrow>
               allocate_claims pick ac cas av
                 (allocated(claimUID := allocated claimUID @ map AllocatedGpu_UUID (Devices g))))
      | None \<Rightarrow>
          (case ClaimParameters ca of
             GpuClaimParameters claimParams \<Rightarrow>
               (case take_devices pick (nat (Count claimParams)) av [] of
                  (av', devices) \<Rightarrow>
                    allocate_claims pick ac cas av' (allocated(claimUID := devices)))
           | OtherClaimParameters \<Rightarrow> Inl (Panic ''nil pointer dereference'')))"

definition gpudriver_allocate ::
  "pick \<Rightarrow> NodeAllocationState \<Rightarrow> ClaimAllocation list \<Rightarrow> error + (string \<Rightarrow> string list)" where
  "gpudriver_allocate pick crd gpucas =
     allocate_claims pick (claims_of crd) gpucas
       (remove_allocated (claims_of crd) (add_available (AllocatableDevices (Spec crd)) []))
       (\<lambda>claimUID. [])"

subsection \<open>UnsuitableNode\<close>

text \<open>
  The visitor of the pending allocations of the node: a pending claim that the record
  already holds is removed from the cache, any other is written into the record in hand.
\<close>

definition reconcile_visitor ::
  "string \<Rightarrow> AllocatedDevices \<Rightarrow> NodeAllocationState \<times> PerNodeAllocatedClaims
     \<Rightarrow> NodeAllocationState \<times> PerNodeAllocatedClaims" where
  "reconcile_visitor claimUID allocation s =
     (case s of (crd, p) \<Rightarrow>
        if map_of (claims_of crd) claimUID \<noteq> None
        then (crd, Remove p claimUID)
        else (set_claim crd claimUID allocation, p))"

definition mark_unsuitable :: "string \<Rightarrow> ClaimAllocation list \<Rightarrow> ClaimAllocation list" where
  "mark_unsuitable node allcas =
     map (\<lambda>ca. ca\<lparr>UnsuitableNodes := UnsuitableNodes ca @ [node]\<rparr>) allcas"

definition allocated_devices :: "string list \<Rightarrow> AllocatedDevices" where
  "allocated_devices gpus =
     \<lparr>AllocatedDevices_Gpu = Some \<lparr>Devices = map (\<lambda>gpu. \<lparr>AllocatedGpu_UUID = gpu\<rparr>) gpus\<rparr>\<rparr>"

text \<open>
  The loop over \<open>gpucas\<close> after the allocator has run: the result is the cache, and
  whether the loop returned at a claim whose count differs from the number of its devices.
\<close>

fun stage_claims ::
  "string \<Rightarrow> (string \<Rightarrow> string list) \<Rightarrow> ClaimAllocation list \<Rightarrow> PerNodeAllocatedClaims
     \<Rightarrow> PerNodeAllocatedClaims \<times> (error + bool)" where
  "stage_claims node allocated [] p = (p, Inr False)"
| "stage_claims node allocated (ca # cas) p =
     (let claimUID = UID (Claim ca) in
      case ClaimParameters ca of
        OtherClaimParameters \<Rightarrow> (p, Inl (Panic ''nil pointer dereference''))
      | GpuClaimParameters claimParams \<Rightarrow>
          if Count claimParams \<noteq> int (length (allocated claimUID))
          then (p, Inr True)
          else stage_claims node allocated cas
                 (Set p claimUID node (allocated_devices (allocated claimUID))))"

definition gpudriver_UnsuitableNode ::
  "pick \<Rightarrow> PerNodeAllocatedClaims \<Rightarrow> NodeAllocationState \<Rightarrow> ClaimAllocation list
     \<Rightarrow> ClaimAllocation list \<Rightarrow> string
     \<Rightarrow> PerNodeAllocatedClaims \<times> ClaimAllocation list \<times> error option" where
  "gpudriver_UnsuitableNode pick p crd gpucas allcas potentialNode =
     (case VisitNode p potentialNode reconcile_visitor (crd, p) of
        (crd', p') \<Rightarrow>
          (case gpudriver_allocate pick crd' gpucas of
             Inl err \<Rightarrow> (p', allcas, Some err)
           | Inr allocated \<Rightarrow>
               (case stage_claims potentialNode allocated gpucas p' of
                  (p'', Inl err) \<Rightarrow> (p'', allcas, Some err)
                | (p'', Inr True) \<Rightarrow> (p'', mark_unsuitable potentialNode allcas, None)
                | (p'', Inr False) \<Rightarrow> (p'', allcas, None))))"

section \<open>driver\<close>

text \<open>
  The state the operations share: the store of the node records and the cache of the
  gpudriver.
\<close>

record world =
  nas :: nas_store
  PendingAllocatedClaims :: PerNodeAllocatedClaims

definition buildAllocationResult :: "string \<Rightarrow> bool \<Rightarrow> AllocationResult" where
  "buildAllocationResult selectedNode shareable =
     \<lparr>AvailableOnNodes = Some
        \<lparr>NodeSelectorTerms =
           [\<lparr>MatchExpressions = [],
             MatchFields = [\<lparr>Key = ''metadata.name'', Operator = ''In'', Values = [selectedNode]\<rparr>]\<rparr>]\<rparr>,
      Shareable = shareable\<rparr>"

definition getSelectedNode :: "ResourceClaim \<Rightarrow> error + string" where
  "getSelectedNode claim =
     (case Allocation (ResourceClaim_Status claim) of
        None \<Rightarrow> Inr ''''
      | Some allocation \<Rightarrow>
          (case AvailableOnNodes allocation of
             None \<Rightarrow> Inr ''''
           | Some selector \<Rightarrow>
               (case NodeSelectorTerms selector of
                  [] \<Rightarrow> Inl (Panic ''index out of range'')
                | nodeSelectorTerm # ts \<Rightarrow>
                    (case MatchFields nodeSelectorTerm of
                       [] \<Rightarrow> Inl (Panic ''index out of range'')
                     | requirement # rs \<Rightarrow>
                         (case Values requirement of
                            [] \<Rightarrow> Inl (Panic ''index out of range'')
                          | v # vs \<Rightarrow> Inr v)))))"

text \<open>\<open>if crd.Spec.AllocatedClaims == nil { crd.Spec.AllocatedClaims = make(...) }\<close>\<close>

definition make_claims :: "NodeAllocationState \<Rightarrow> NodeAllocationState" where
  "make_claims crd =
     (case AllocatedClaims (Spec crd) of
        None \<Rightarrow> crd\<lparr>Spec := (Spec crd)\<lparr>AllocatedClaims := Some []\<rparr>\<rparr>
      | Some m \<Rightarrow> crd)"

text \<open>
  \<open>driver.allocate\<close>, the commit of one claim on the selected node. The class and its
  parameters are passed on and never read.
\<close>

definition driver_allocate ::
  "io \<Rightarrow> world \<Rightarrow> ResourceClaim \<Rightarrow> ClaimParameters \<Rightarrow> string \<Rightarrow> world \<times> (error + AllocationResult)" where
  "driver_allocate io w claim claimParameters selectedNode =
     (if selectedNode = '''' then (w, Inl ImmediateNotSupported)
      else
        (case client_Get (get_fault io) (nas w) selectedNode of
           Inl err \<Rightarrow> (w, Inl (RetrievingCRD err))
         | Inr fetched \<Rightarrow>
             if Status fetched \<noteq> NodeAllocationStateStatusReady
             then (w, Inl (StatusNotReady (Status fetched)))
             else
               (let crd = make_claims fetched in
                if map_of (claims_of crd) (UID claim) \<noteq> None
                then (w, Inr (buildAllocationResult selectedNode True))
                else
                  (case claimParameters of
                     OtherClaimParameters \<Rightarrow>
                       (case ParametersRef (ResourceClaim_Spec claim) of
                          None \<Rightarrow> (w, Inl (Panic ''nil pointer dereference''))
                        | Some ref \<Rightarrow>
                            (w, Inl (UnableToAllocate selectedNode (UnknownParametersKind (Kind ref)))))
                   | GpuClaimParameters claimParams \<Rightarrow>
                       (case gpudriver_Allocate (PendingAllocatedClaims w) crd claim selectedNode of
                          Inl err \<Rightarrow>
                            (case err of
                               Panic msg \<Rightarrow> (w, Inl err)
                             | _ \<Rightarrow> (w, Inl (UnableToAllocate selectedNode err)))
                        | Inr (crd', onSuccess) \<Rightarrow>
                            (case client_Update (update_fault io) (nas w) selectedNode crd' (Spec crd') of
                               (store, Some err) \<Rightarrow> (w, Inl (UpdatingCRD err))
                             | (store, None) \<Rightarrow>
                                 (w\<lparr>nas := store,
                                    PendingAllocatedClaims := onSuccess (PendingAllocatedClaims w)\<rparr>,
                                  Inr (buildAllocationResult selectedNode True))))))))"

text \<open>\<open>driver.Deallocate\<close>, the release of a claim; \<open>None\<close> is the nil error.\<close>

definition delete_claim :: "NodeAllocationState \<Rightarrow> string \<Rightarrow> NodeAllocationState" where
  "delete_claim crd claimUID =
     crd\<lparr>Spec := (Spec crd)\<lparr>AllocatedClaims := Some (AList.delete claimUID (claims_of crd))\<rparr>\<rparr>"

definition driver_Deallocate :: "io \<Rightarrow> world \<Rightarrow> ResourceClaim \<Rightarrow> world \<times> error option" where
  "driver_Deallocate io w claim =
     (case getSelectedNode claim of
        Inl err \<Rightarrow> (w, Some err)
      | Inr selectedNode \<Rightarrow>
          if selectedNode = '''' then (w, None)
          else
            (case client_Get (get_fault io) (nas w) selectedNode of
               Inl err \<Rightarrow> (w, Some (RetrievingCRD err))
             | Inr crd \<Rightarrow>
                 (case AllocatedClaims (Spec crd) of
                    None \<Rightarrow> (w, None)
                  | Some m \<Rightarrow>
                      (case map_of m (UID claim) of
                         None \<Rightarrow> (w, None)
                       | Some devices \<Rightarrow>
                           (case AllocatedDevices_Type devices of
                              UnknownDeviceType \<Rightarrow>
                                (w, Some (UnableToDeallocate (UnknownAllocatedType (AllocatedDevices_Type devices))))
                            | GpuDeviceType \<Rightarrow>
                                (case gpudriver_Deallocate (PendingAllocatedClaims w) crd claim of
                                   (p, Some err) \<Rightarrow>
                                     (w\<lparr>PendingAllocatedClaims := p\<rparr>, Some (UnableToDeallocate err))
                                 | (p, None) \<Rightarrow>
                                     (let crd' = delete_claim crd (UID claim) in
                                      case client_Update (update_fault io) (nas w) selectedNode crd' (Spec crd') of
                                        (store, Some err) \<Rightarrow>
                                          (w\<lparr>PendingAllocatedClaims := p\<rparr>, Some (UpdatingCRD err))
                                      | (store, None) \<Rightarrow>
                                          (w\<lparr>nas := store, PendingAllocatedClaims := p\<rparr>, None))))))))"

text \<open>
  \<open>driver.unsuitableNode\<close>, the evaluation of one candidate node for the batch \<open>allcas\<close>.
  The first loop keeps the claims with GPU parameters and returns an error at any other;
  the only kind is the GPU kind, so the second loop is one call of the gpudriver.
\<close>

fun perKindCas :: "ClaimAllocation list \<Rightarrow> ClaimAllocation list \<Rightarrow> error + ClaimAllocation list" where
  "perKindCas [] gpucas = Inr gpucas"
| "perKindCas (ca # cas) gpucas =
     (case ClaimParameters ca of
        GpuClaimParameters claimParams \<Rightarrow> perKindCas cas (gpucas @ [ca])
      | OtherClaimParameters \<Rightarrow> Inl UnknownClaimParameters)"

definition driver_unsuitableNode ::
  "pick \<Rightarrow> io \<Rightarrow> world \<Rightarrow> ClaimAllocation list \<Rightarrow> string \<Rightarrow> world \<times> ClaimAllocation list \<times> error option" where
  "driver_unsuitableNode pick io w allcas potentialNode =
     (case client_Get (get_fault io) (nas w) potentialNode of
        Inl err \<Rightarrow> (w, mark_unsuitable potentialNode allcas, None)
      | Inr fetched \<Rightarrow>
          if Status fetched \<noteq> NodeAllocationStateStatusReady
          then (w, mark_unsuitable potentialNode allcas, None)
          else
            (let crd = make_claims fetched in
             case perKindCas allcas [] of
               Inl err \<Rightarrow> (w, allcas, Some err)
             | Inr gpucas \<Rightarrow>
                 (case gpudriver_UnsuitableNode pick (PendingAllocatedClaims w) crd gpucas allcas potentialNode of
                    (p, allcas', err) \<Rightarrow> (w\<lparr>PendingAllocatedClaims := p\<rparr>, allcas', err))))"

section \<open>Runs of the driver\<close>

text \<open>
  The scheduler calls the three operations in any order, for any claims and nodes:
  \<open>driver.UnsuitableNodes\<close> is \<open>Evaluate\<close> for each candidate node in turn (and then
  drops the repeated nodes from the lists of the claims) and \<open>driver.Allocate\<close> is
  \<open>Commit\<close> for each claim in turn. A run is a list of calls, each with the faults of
  its transport and, for \<open>Evaluate\<close>, the order of its pool.
\<close>

datatype operation =
    Evaluate pick io "ClaimAllocation list" string
  | Commit io ResourceClaim ClaimParameters string
  | Release io ResourceClaim

fun step :: "operation \<Rightarrow> world \<Rightarrow> world" where
  "step (Evaluate pick io allcas potentialNode) w =
     fst (driver_unsuitableNode pick io w allcas potentialNode)"
| "step (Commit io claim claimParameters selectedNode) w =
     fst (driver_allocate io w claim claimParameters selectedNode)"
| "step (Release io claim) w = fst (driver_Deallocate io w claim)"

definition run :: "operation list \<Rightarrow> world \<Rightarrow> world" where
  "run ops w = fold step ops w"

section \<open>The invariant of the node records\<close>

text \<open>
  The identities of the devices of an allocation, and of the inventory of a record.
\<close>

definition gpu_uuids :: "AllocatedDevices \<Rightarrow> string set" where
  "gpu_uuids allocation =
     (case AllocatedDevices_Gpu allocation of
        None \<Rightarrow> {}
      | Some g \<Rightarrow> set (map AllocatedGpu_UUID (Devices g)))"

definition inventory_uuids :: "NodeAllocationState \<Rightarrow> string set" where
  "inventory_uuids crd =
     set (map AllocatableGpu_UUID (List.map_filter AllocatableDevice_Gpu (AllocatableDevices (Spec crd))))"

text \<open>
  A list of holds, each the devices held for a claim: every hold is within the inventory
  and the holds of two claims share no device.
\<close>

definition holds_disjoint :: "string set \<Rightarrow> (string \<times> AllocatedDevices) list \<Rightarrow> bool" where
  "holds_disjoint inventory hs \<longleftrightarrow>
     (\<forall>(c, a) \<in> set hs. gpu_uuids a \<subseteq> inventory) \<and>
     (\<forall>(c, a) \<in> set hs. \<forall>(d, b) \<in> set hs. c \<noteq> d \<longrightarrow> gpu_uuids a \<inter> gpu_uuids b = {})"

text \<open>The invariant of the spec, for one record and for every record of the store.\<close>

definition record_invariant :: "NodeAllocationState \<Rightarrow> bool" where
  "record_invariant crd = holds_disjoint (inventory_uuids crd) (claims_of crd)"

definition records_invariant :: "world \<Rightarrow> bool" where
  "records_invariant w \<longleftrightarrow> (\<forall>node crd. nas w node = Some crd \<longrightarrow> record_invariant crd)"

text \<open>
  The pending allocations on a node of the claims that the record of the node does not
  hold yet: a commit copies one of them into the record. The cache is consistent with a
  record when they and the committed allocations together keep the invariant, and with the
  store when it is so for every record and no claim has two entries.
\<close>

definition uncommitted_pending ::
  "NodeAllocationState \<Rightarrow> PerNodeAllocatedClaims \<Rightarrow> string \<Rightarrow> (string \<times> AllocatedDevices) list" where
  "uncommitted_pending crd p node =
     map (\<lambda>(c, n, a). (c, a)) (filter (\<lambda>(c, n, a). n = node \<and> map_of (claims_of crd) c = None) p)"

definition node_consistent :: "NodeAllocationState \<Rightarrow> PerNodeAllocatedClaims \<Rightarrow> string \<Rightarrow> bool" where
  "node_consistent crd p node =
     holds_disjoint (inventory_uuids crd) (claims_of crd @ uncommitted_pending crd p node)"

definition world_invariant :: "world \<Rightarrow> bool" where
  "world_invariant w \<longleftrightarrow>
     distinct (map fst (PendingAllocatedClaims w)) \<and>
     (\<forall>node crd. nas w node = Some crd \<longrightarrow> node_consistent crd (PendingAllocatedClaims w) node)"

text \<open>
  What the loops of the allocator keep: every key of the pool is the UUID of its device and
  occurs once; the pool stays within the free devices; the devices given to the claims
  that the record in hand does not hold are free, out of the pool and given once; and the
  output for a claim that the record holds is made of the devices of that claim.
\<close>

definition avail_ok :: "available \<Rightarrow> bool" where
  "avail_ok av \<longleftrightarrow> distinct (map fst av) \<and> (\<forall>(k, g) \<in> set av. AllocatableGpu_UUID g = k)"

definition alloc_inv ::
  "string set \<Rightarrow> (string \<times> AllocatedDevices) list \<Rightarrow> available \<Rightarrow> (string \<Rightarrow> string list) \<Rightarrow> bool" where
  "alloc_inv free ac av allocated \<longleftrightarrow>
     avail_ok av \<and> fst ` set av \<subseteq> free \<and>
     (\<forall>c. map_of ac c = None \<longrightarrow> set (allocated c) \<subseteq> free - fst ` set av) \<and>
     (\<forall>c d. c \<noteq> d \<and> map_of ac c = None \<and> map_of ac d = None \<longrightarrow>
        set (allocated c) \<inter> set (allocated d) = {}) \<and>
     (\<forall>c a. map_of ac c = Some a \<longrightarrow> set (allocated c) \<subseteq> gpu_uuids a)"

text \<open>
  The claim names a node and the record of that node holds the claim: the case in which
  \<open>driver.Deallocate\<close>, once it has fetched the record, goes on to delete the claim.
\<close>

definition committed_claim :: "world \<Rightarrow> ResourceClaim \<Rightarrow> bool" where
  "committed_claim w claim =
     (case getSelectedNode claim of
        Inl err \<Rightarrow> False
      | Inr selectedNode \<Rightarrow>
          selectedNode \<noteq> '''' \<and>
          (case nas w selectedNode of
             None \<Rightarrow> False
           | Some crd \<Rightarrow> map_of (claims_of crd) (UID claim) \<noteq> None))"

section \<open>A node with two devices\<close>

text \<open>
  The node of the scenarios of the spec: \<open>node-1\<close> with the devices \<open>gpu-a\<close> and
  \<open>gpu-b\<close>, ready, with a given map of committed claims and a given cache.
\<close>

definition example_gpu :: "string \<Rightarrow> AllocatableDevice" where
  "example_gpu uuid = \<lparr>AllocatableDevice_Gpu = Some \<lparr>AllocatableGpu_UUID = uuid\<rparr>\<rparr>"

definition example_record :: "(string \<times> AllocatedDevices) list option \<Rightarrow> NodeAllocationState" where
  "example_record claims =
     \<lparr>Spec = \<lparr>AllocatableDevices = [example_gpu ''gpu-a'', example_gpu ''gpu-b''],
              AllocatedClaims = claims\<rparr>,
      Status = ''Ready''\<rparr>"

definition example_claim :: "string \<Rightarrow> ResourceClaim" where
  "example_claim uid =
     \<lparr>UID = uid, ResourceClaim_Spec = \<lparr>ParametersRef = None\<rparr>,
      ResourceClaim_Status = \<lparr>Allocation = None\<rparr>\<rparr>"

definition example_allocated_claim :: "string \<Rightarrow> string \<Rightarrow> ResourceClaim" where
  "example_allocated_claim uid node =
     (example_claim uid)\<lparr>ResourceClaim_Status := \<lparr>Allocation = Some (buildAllocationResult node True)\<rparr>\<rparr>"

definition example_ca :: "string \<Rightarrow> int \<Rightarrow> ClaimAllocation" where
  "example_ca uid n =
     \<lparr>Claim = example_claim uid, ClaimParameters = GpuClaimParameters \<lparr>Count = n\<rparr>,
      UnsuitableNodes = []\<rparr>"

definition example_world ::
  "(string \<times> AllocatedDevices) list option \<Rightarrow> PerNodeAllocatedClaims \<Rightarrow> world" where
  "example_world claims pending =
     \<lparr>nas = [''node-1'' \<mapsto> example_record claims], PendingAllocatedClaims = pending\<rparr>"

definition example_not_ready :: world where
  "example_not_ready =
     \<lparr>nas = [''node-1'' \<mapsto> (example_record None)\<lparr>Status := ''NotReady''\<rparr>],
      PendingAllocatedClaims = [(''claim-9'', ''node-1'', allocated_devices [''gpu-b''])]\<rparr>"

definition no_fault :: io where
  "no_fault = \<lparr>get_fault = None, update_fault = None\<rparr>"

definition write_fault :: io where
  "write_fault = \<lparr>get_fault = None, update_fault = Some (StoreFailure ''conflict'')\<rparr>"

section \<open>Facts about the operations\<close>

lemma claims_of_make_claims: "claims_of (make_claims crd) = claims_of crd"
  by (simp add: make_claims_def claims_of_def split: option.splits)

lemma Status_make_claims: "Status (make_claims crd) = Status crd"
  by (simp add: make_claims_def split: option.splits)

lemma claims_of_set_claim: "claims_of (set_claim crd c d) = AList.update c d (claims_of crd)"
  by (simp add: set_claim_def claims_of_def)

lemma Status_set_claim: "Status (set_claim crd c d) = Status crd"
  by (simp add: set_claim_def)

lemma Exists_Get: "Exists p c n = (Get p c n \<noteq> None)"
  by (auto simp: Exists_def Get_def split: option.splits)

lemma client_Get_Inr:
  "client_Get fault store name = Inr crd \<Longrightarrow> store name = Some crd"
  by (simp add: client_Get_def split: option.splits)

lemma mark_unsuitable_fields:
  "map UnsuitableNodes (mark_unsuitable node allcas) = map (\<lambda>ca. UnsuitableNodes ca @ [node]) allcas"
  "map Claim (mark_unsuitable node allcas) = map Claim allcas"
  "map ClaimParameters (mark_unsuitable node allcas) = map ClaimParameters allcas"
  by (simp_all add: mark_unsuitable_def)

text \<open>
  \<open>driver.allocate\<close> once a node is selected and its record is fetched and ready: the
  claim is committed already, or its parameters are of no known kind, or no allocation
  is pending for it on the node, or the record is written with the pending allocation.
\<close>

lemma driver_allocate_fetched:
  assumes "selectedNode \<noteq> ''''" "get_fault io = None" "nas w selectedNode = Some fetched"
    "Status fetched = NodeAllocationStateStatusReady"
  shows "driver_allocate io w claim claimParameters selectedNode =
     (if map_of (claims_of fetched) (UID claim) \<noteq> None
      then (w, Inr (buildAllocationResult selectedNode True))
      else (case claimParameters of
              OtherClaimParameters \<Rightarrow>
                (case ParametersRef (ResourceClaim_Spec claim) of
                   None \<Rightarrow> (w, Inl (Panic ''nil pointer dereference''))
                 | Some ref \<Rightarrow> (w, Inl (UnableToAllocate selectedNode (UnknownParametersKind (Kind ref)))))
            | GpuClaimParameters claimParams \<Rightarrow>
                (case Get (PendingAllocatedClaims w) (UID claim) selectedNode of
                   None \<Rightarrow> (w, Inl (UnableToAllocate selectedNode (NoAllocationsGenerated (UID claim) selectedNode)))
                 | Some devices \<Rightarrow>
                     (case update_fault io of
                        Some err \<Rightarrow> (w, Inl (UpdatingCRD err))
                      | None \<Rightarrow>
                          (w\<lparr>nas := (nas w)(selectedNode \<mapsto> set_claim (make_claims fetched) (UID claim) devices),
                             PendingAllocatedClaims := Remove (PendingAllocatedClaims w) (UID claim)\<rparr>,
                           Inr (buildAllocationResult selectedNode True))))))"
  using assms
  by (simp add: driver_allocate_def client_Get_def client_Update_def Let_def gpudriver_Allocate_def
      claims_of_make_claims Exists_Get
      split: option.splits ClaimParameters.splits)

lemma driver_allocate_not_fetched:
  assumes "selectedNode = '''' \<or> get_fault io \<noteq> None \<or> nas w selectedNode = None
     \<or> (\<exists>crd. nas w selectedNode = Some crd \<and> Status crd \<noteq> NodeAllocationStateStatusReady)"
  shows "\<exists>err. driver_allocate io w claim claimParameters selectedNode = (w, Inl err)
           \<and> \<not> is_panic err"
  using assms
  by (auto simp add: driver_allocate_def client_Get_def is_panic_def split: option.splits)

lemma commit_success:
  assumes "driver_allocate io w claim claimParameters selectedNode = (w', Inr result)"
  shows "selectedNode \<noteq> '''' \<and> result = buildAllocationResult selectedNode True
     \<and> (\<exists>crd. nas w' selectedNode = Some crd \<and> Status crd = NodeAllocationStateStatusReady
            \<and> map_of (claims_of crd) (UID claim) \<noteq> None)"
proof (cases "selectedNode = '''' \<or> get_fault io \<noteq> None \<or> nas w selectedNode = None
     \<or> (\<exists>crd. nas w selectedNode = Some crd \<and> Status crd \<noteq> NodeAllocationStateStatusReady)")
  case True
  then obtain err where "driver_allocate io w claim claimParameters selectedNode = (w, Inl err)"
    using driver_allocate_not_fetched by blast
  with assms show ?thesis by simp
next
  case False
  then obtain fetched where f: "selectedNode \<noteq> ''''" "get_fault io = None" "nas w selectedNode = Some fetched"
    "Status fetched = NodeAllocationStateStatusReady" by auto
  show ?thesis
    using assms f
    unfolding driver_allocate_fetched [OF f]
    by (auto simp: claims_of_set_claim Status_set_claim Status_make_claims update_conv'
        split: if_splits ClaimParameters.splits option.splits)
qed

lemma commit_committed:
  assumes "nas w selectedNode = Some crd" "map_of (claims_of crd) (UID claim) \<noteq> None"
  shows "fst (driver_allocate io w claim claimParameters selectedNode) = w"
    and "get_fault io = None \<Longrightarrow> selectedNode \<noteq> '''' \<Longrightarrow> Status crd = NodeAllocationStateStatusReady \<Longrightarrow>
       driver_allocate io w claim claimParameters selectedNode = (w, Inr (buildAllocationResult selectedNode True))"
  using assms
  by (auto simp add: driver_allocate_def client_Get_def Let_def claims_of_make_claims split: option.splits)

subsection \<open>The node with two devices\<close>

lemma no_fault_simps: "get_fault no_fault = None" "update_fault no_fault = None"
  by (simp_all add: no_fault_def)

lemma write_fault_simps:
  "get_fault write_fault = None" "update_fault write_fault = Some (StoreFailure ''conflict'')"
  by (simp_all add: write_fault_def)

lemma example_world_simps:
  "nas (example_world claims pending) ''node-1'' = Some (example_record claims)"
  "PendingAllocatedClaims (example_world claims pending) = pending"
  "Status (example_record claims) = NodeAllocationStateStatusReady"
  "claims_of (example_record claims) = (case claims of None \<Rightarrow> [] | Some m \<Rightarrow> m)"
  "UID (example_claim uid) = uid"
  by (simp_all add: example_world_def example_record_def example_claim_def claims_of_def
      NodeAllocationStateStatusReady_def)

lemma example_inventory: "inventory_uuids (example_record claims) = {''gpu-a'', ''gpu-b''}"
  by (simp add: inventory_uuids_def example_record_def example_gpu_def List.map_filter_simps)

lemma example_commit_pending:
  "driver_allocate no_fault
     (example_world None [(''claim-1'', ''node-1'', allocated_devices [''gpu-a''])])
     (example_claim ''claim-1'') (GpuClaimParameters \<lparr>Count = 1\<rparr>) ''node-1''
   = (example_world (Some [(''claim-1'', allocated_devices [''gpu-a''])]) [],
      Inr (buildAllocationResult ''node-1'' True))"
  by (simp add: driver_allocate_def client_Get_def client_Update_def Let_def gpudriver_Allocate_def
      example_world_def example_record_def example_claim_def no_fault_def make_claims_def
      NodeAllocationStateStatusReady_def claims_of_def Exists_def Get_def set_claim_def Remove_def)

text \<open>
  The scenarios of the spec on the node with two devices. A claim for one device is
  staged with the device the pool gives first, whichever it is; after the commit, the
  release deletes the claim from the record; a claim for three devices marks the node
  unsuitable and stages nothing.
\<close>

lemma scenario_1_evaluate:
  "driver_unsuitableNode (\<lambda>av. 0) no_fault (example_world None []) [example_ca ''claim-1'' 1] ''node-1''
     = (example_world None [(''claim-1'', ''node-1'', allocated_devices [''gpu-a''])],
        [example_ca ''claim-1'' 1], None)"
  by (simp add: driver_unsuitableNode_def gpudriver_UnsuitableNode_def gpudriver_allocate_def
      AllocatableDevice_Type_def AllocatedDevices_Type_def
      client_Get_def no_fault_simps example_world_def example_record_def example_ca_def
      example_claim_def example_gpu_def NodeAllocationStateStatusReady_def make_claims_def
      claims_of_def VisitNode_def Set_def)

lemma scenario_1_evaluate_other_order:
  "driver_unsuitableNode (\<lambda>av. 1) no_fault (example_world None []) [example_ca ''claim-1'' 1] ''node-1''
     = (example_world None [(''claim-1'', ''node-1'', allocated_devices [''gpu-b''])],
        [example_ca ''claim-1'' 1], None)"
  by (simp add: driver_unsuitableNode_def gpudriver_UnsuitableNode_def gpudriver_allocate_def
      AllocatableDevice_Type_def AllocatedDevices_Type_def
      client_Get_def no_fault_simps example_world_def example_record_def example_ca_def
      example_claim_def example_gpu_def NodeAllocationStateStatusReady_def make_claims_def
      claims_of_def VisitNode_def Set_def)

lemma scenario_1_release:
  "driver_Deallocate no_fault
     (example_world (Some [(''claim-1'', allocated_devices [''gpu-a''])]) [])
     (example_allocated_claim ''claim-1'' ''node-1'')
   = (example_world (Some []) [], None)"
  by (simp add: driver_Deallocate_def getSelectedNode_def example_allocated_claim_def
      buildAllocationResult_def client_Get_def client_Update_def no_fault_simps
      example_world_def example_record_def example_claim_def allocated_devices_def
      AllocatedDevices_Type_def gpudriver_Deallocate_def Let_def delete_claim_def claims_of_def
      Remove_def)

lemma scenario_2_shortfall:
  "driver_unsuitableNode (\<lambda>av. 0) no_fault (example_world None []) [example_ca ''claim-2'' 3] ''node-1''
     = (example_world None [], mark_unsuitable ''node-1'' [example_ca ''claim-2'' 3], None)"
  by (simp add: driver_unsuitableNode_def gpudriver_UnsuitableNode_def gpudriver_allocate_def
      AllocatableDevice_Type_def AllocatedDevices_Type_def
      client_Get_def no_fault_simps example_world_def example_record_def example_ca_def
      example_claim_def example_gpu_def NodeAllocationStateStatusReady_def make_claims_def
      claims_of_def VisitNode_def Set_def eval_nat_numeral)

section \<open>Validation of the claim parameters\<close>

text \<open>
  C9. \<open>ValidateClaimParameters\<close> returns an error exactly when the requested count is
  below 1; for every count of 1 or more it returns nil.
\<close>

theorem C9_validate_error_iff_count_below_1:
  "(ValidateClaimParameters claimParams \<noteq> None) = (Count claimParams < 1)
   \<and> (ValidateClaimParameters claimParams = None) = (1 \<le> Count claimParams)"
  by (simp add: ValidateClaimParameters_def)

section \<open>Commit\<close>

text \<open>
  C10. Every commit that succeeds, the repeated commit of a committed claim included,
  returns an allocation result that is shareable and whose node selector is one term with
  one field requirement, \<open>metadata.name In [selectedNode]\<close>, and no expression;
  \<open>getSelectedNode\<close> reads the selected node back from a claim that carries the result.
\<close>

theorem C10_commit_result:
  assumes "snd (driver_allocate io w claim claimParameters selectedNode) = Inr result"
  shows "Shareable result = True
     \<and> AvailableOnNodes result = Some
          \<lparr>NodeSelectorTerms =
             [\<lparr>MatchExpressions = [],
               MatchFields = [\<lparr>Key = ''metadata.name'', Operator = ''In'', Values = [selectedNode]\<rparr>]\<rparr>]\<rparr>
     \<and> getSelectedNode (claim\<lparr>ResourceClaim_Status := \<lparr>Allocation = Some result\<rparr>\<rparr>) = Inr selectedNode"
proof -
  obtain w' where "driver_allocate io w claim claimParameters selectedNode = (w', Inr result)"
    using assms by (cases "driver_allocate io w claim claimParameters selectedNode") simp
  then have "result = buildAllocationResult selectedNode True"
    using commit_success by blast
  then show ?thesis
    by (simp add: buildAllocationResult_def getSelectedNode_def)
qed

text \<open>
  The commit of the claim staged on \<open>node-1\<close> succeeds, with that result.
\<close>

theorem C10_commit_result_witness:
  "snd (driver_allocate no_fault
     (example_world None [(''claim-1'', ''node-1'', allocated_devices [''gpu-a''])])
     (example_claim ''claim-1'') (GpuClaimParameters \<lparr>Count = 1\<rparr>) ''node-1'')
    = Inr (buildAllocationResult ''node-1'' True)
   \<and> Shareable (buildAllocationResult ''node-1'' True) = True
   \<and> getSelectedNode ((example_claim ''claim-1'')
        \<lparr>ResourceClaim_Status := \<lparr>Allocation = Some (buildAllocationResult ''node-1'' True)\<rparr>\<rparr>) = Inr ''node-1''"
  using C10_commit_result [of no_fault
     "example_world None [(''claim-1'', ''node-1'', allocated_devices [''gpu-a''])]"
     "example_claim ''claim-1''" "GpuClaimParameters \<lparr>Count = 1\<rparr>" "''node-1''"
     "buildAllocationResult ''node-1'' True"]
  by (simp add: example_commit_pending)

text \<open>
  C4. A record that holds the claim: a commit of the claim on the node leaves the store
  and the cache as they are, whatever the transport does and whatever parameters it is
  given, and returns the allocation result for the node when the node is selected and the
  record is fetched and ready. A commit that has succeeded leaves such a record, ready, so
  a second commit of the claim on the node writes nothing, and when it fetches the record
  it returns the result of the first.
\<close>

theorem C4_commit_again_writes_nothing:
  "(nas w selectedNode = Some crd \<and> map_of (claims_of crd) (UID claim) \<noteq> None \<longrightarrow>
      fst (driver_allocate io w claim claimParameters selectedNode) = w
      \<and> (selectedNode \<noteq> '''' \<and> get_fault io = None \<and> Status crd = NodeAllocationStateStatusReady \<longrightarrow>
           driver_allocate io w claim claimParameters selectedNode
             = (w, Inr (buildAllocationResult selectedNode True))))
   \<and> (driver_allocate io w claim claimParameters selectedNode = (w', Inr result) \<longrightarrow>
      (\<exists>crd'. nas w' selectedNode = Some crd' \<and> map_of (claims_of crd') (UID claim) \<noteq> None)
      \<and> fst (driver_allocate io' w' claim claimParameters' selectedNode) = w'
      \<and> (get_fault io' = None \<longrightarrow>
           driver_allocate io' w' claim claimParameters' selectedNode = (w', Inr result)))"
proof (intro conjI impI)
  assume a: "nas w selectedNode = Some crd \<and> map_of (claims_of crd) (UID claim) \<noteq> None"
  then show "fst (driver_allocate io w claim claimParameters selectedNode) = w"
    using commit_committed(1) by blast
  assume "selectedNode \<noteq> '''' \<and> get_fault io = None \<and> Status crd = NodeAllocationStateStatusReady"
  with a show "driver_allocate io w claim claimParameters selectedNode
             = (w, Inr (buildAllocationResult selectedNode True))"
    using commit_committed(2) by blast
next
  assume first: "driver_allocate io w claim claimParameters selectedNode = (w', Inr result)"
  from commit_success [OF first] obtain crd' where
    c: "selectedNode \<noteq> ''''" "result = buildAllocationResult selectedNode True"
      "nas w' selectedNode = Some crd'" "Status crd' = NodeAllocationStateStatusReady"
      "map_of (claims_of crd') (UID claim) \<noteq> None"
    by blast
  from c(3,5) show "\<exists>crd'. nas w' selectedNode = Some crd' \<and> map_of (claims_of crd') (UID claim) \<noteq> None"
    by blast
  show "fst (driver_allocate io' w' claim claimParameters' selectedNode) = w'"
    using commit_committed(1) [OF c(3) c(5)] .
  assume "get_fault io' = None"
  then show "driver_allocate io' w' claim claimParameters' selectedNode = (w', Inr result)"
    using commit_committed(2) [OF c(3) c(5), of io' claimParameters'] c(1,2,4) by simp
qed

text \<open>
  The commit of the staged claim, and the same commit again on the world it leaves.
\<close>

theorem C4_commit_again_writes_nothing_witness:
  "driver_allocate no_fault
     (example_world None [(''claim-1'', ''node-1'', allocated_devices [''gpu-a''])])
     (example_claim ''claim-1'') (GpuClaimParameters \<lparr>Count = 1\<rparr>) ''node-1''
   = (example_world (Some [(''claim-1'', allocated_devices [''gpu-a''])]) [],
      Inr (buildAllocationResult ''node-1'' True))
   \<and> driver_allocate no_fault
     (example_world (Some [(''claim-1'', allocated_devices [''gpu-a''])]) [])
     (example_claim ''claim-1'') (GpuClaimParameters \<lparr>Count = 1\<rparr>) ''node-1''
   = (example_world (Some [(''claim-1'', allocated_devices [''gpu-a''])]) [],
      Inr (buildAllocationResult ''node-1'' True))
   \<and> driver_allocate write_fault
     (example_world (Some [(''claim-1'', allocated_devices [''gpu-a''])]) [])
     (example_claim ''claim-1'') OtherClaimParameters ''node-1''
   = (example_world (Some [(''claim-1'', allocated_devices [''gpu-a''])]) [],
      Inr (buildAllocationResult ''node-1'' True))"
proof -
  let ?w = "example_world None [(''claim-1'', ''node-1'', allocated_devices [''gpu-a''])]"
  let ?w' = "example_world (Some [(''claim-1'', allocated_devices [''gpu-a''])]) []"
  let ?c = "example_claim ''claim-1''"
  let ?r = "buildAllocationResult ''node-1'' True"
  have again: "driver_allocate no_fault ?w' ?c (GpuClaimParameters \<lparr>Count = 1\<rparr>) ''node-1'' = (?w', Inr ?r)"
    using C4_commit_again_writes_nothing [of ?w "''node-1''" "example_record None" ?c no_fault
        "GpuClaimParameters \<lparr>Count = 1\<rparr>" ?w' ?r no_fault "GpuClaimParameters \<lparr>Count = 1\<rparr>"]
    by (simp add: example_commit_pending no_fault_simps)
  have held: "driver_allocate write_fault ?w' ?c OtherClaimParameters ''node-1'' = (?w', Inr ?r)"
    using C4_commit_again_writes_nothing [of ?w' "''node-1''"
        "example_record (Some [(''claim-1'', allocated_devices [''gpu-a''])])" ?c write_fault
        OtherClaimParameters ?w' ?r write_fault OtherClaimParameters]
    by (simp add: example_world_simps write_fault_simps)
  from example_commit_pending again held show ?thesis by simp
qed

text \<open>
  C5. When the record of the node, if there is one, does not hold the claim and the cache
  has no entry for the claim on the node, a commit returns an error and leaves the store
  and the cache as they are. The error is a returned error, not a panic, unless the
  parameters are of no known kind and the claim has no parameters reference to name the
  kind in the message. When the node is selected, its record is fetched and ready and
  the parameters are GPU parameters, the error is the one of \<open>gpudriver.Allocate\<close>,
  no allocations generated for the claim on the node, wrapped by \<open>driver.allocate\<close>;
  a commit that stops earlier returns the error of that step.
\<close>

theorem C5_commit_without_pending_allocation:
  assumes "\<not> Exists (PendingAllocatedClaims w) (UID claim) selectedNode"
    and "\<forall>crd. nas w selectedNode = Some crd \<longrightarrow> map_of (claims_of crd) (UID claim) = None"
  shows "fst (driver_allocate io w claim claimParameters selectedNode) = w
     \<and> (\<exists>err. snd (driver_allocate io w claim claimParameters selectedNode) = Inl err
            \<and> (is_panic err \<longrightarrow>
                  claimParameters = OtherClaimParameters
                  \<and> ParametersRef (ResourceClaim_Spec claim) = None))
     \<and> (selectedNode \<noteq> '''' \<and> get_fault io = None
          \<and> (\<exists>crd. nas w selectedNode = Some crd \<and> Status crd = NodeAllocationStateStatusReady)
          \<and> claimParameters = GpuClaimParameters claimParams \<longrightarrow>
        snd (driver_allocate io w claim claimParameters selectedNode)
          = Inl (UnableToAllocate selectedNode (NoAllocationsGenerated (UID claim) selectedNode)))"
proof (cases "selectedNode = '''' \<or> get_fault io \<noteq> None \<or> nas w selectedNode = None
     \<or> (\<exists>crd. nas w selectedNode = Some crd \<and> Status crd \<noteq> NodeAllocationStateStatusReady)")
  case True
  then obtain err where "driver_allocate io w claim claimParameters selectedNode = (w, Inl err)"
    and "\<not> is_panic err"
    using driver_allocate_not_fetched by blast
  with True show ?thesis by auto
next
  case False
  then obtain fetched where f: "selectedNode \<noteq> ''''" "get_fault io = None" "nas w selectedNode = Some fetched"
    "Status fetched = NodeAllocationStateStatusReady" by auto
  from assms(2) f(3) have n: "map_of (claims_of fetched) (UID claim) = None" by simp
  from assms(1) have g: "Get (PendingAllocatedClaims w) (UID claim) selectedNode = None"
    by (simp add: Exists_Get)
  show ?thesis
    unfolding driver_allocate_fetched [OF f]
    by (simp add: n g is_panic_def split: ClaimParameters.splits option.splits)
qed

text \<open>
  A commit on the node with two devices, with an empty cache and no committed claim.
\<close>

theorem C5_commit_without_pending_allocation_witness:
  "\<not> Exists [] ''claim-1'' ''node-1''
   \<and> driver_allocate no_fault (example_world None []) (example_claim ''claim-1'')
        (GpuClaimParameters \<lparr>Count = 1\<rparr>) ''node-1''
     = (example_world None [],
        Inl (UnableToAllocate ''node-1'' (NoAllocationsGenerated ''claim-1'' ''node-1'')))"
  using C5_commit_without_pending_allocation [of "example_world None []" "example_claim ''claim-1''"
      "''node-1''" no_fault "GpuClaimParameters \<lparr>Count = 1\<rparr>" "\<lparr>Count = 1\<rparr>"]
  by (cases "driver_allocate no_fault (example_world None []) (example_claim ''claim-1'')
        (GpuClaimParameters \<lparr>Count = 1\<rparr>) ''node-1''")
     (simp add: Exists_def example_world_def example_record_def example_claim_def no_fault_def
       claims_of_def NodeAllocationStateStatusReady_def)

text \<open>
  C8. A commit that reaches the write, for a claim that the fetched record does not hold
  and that is pending on the selected node: when the write succeeds, the record is stored
  with the pending allocation, the entry of the claim is removed from the cache, so that
  the claim is pending on no node, and the result is returned; when the write fails, the
  error is returned, wrapped, and the world is as before, the pending entry with it.
\<close>

theorem C8_commit_write_outcome:
  assumes "selectedNode \<noteq> ''''" and "get_fault io = None"
    and "nas w selectedNode = Some fetched"
    and "Status fetched = NodeAllocationStateStatusReady"
    and "map_of (claims_of fetched) (UID claim) = None"
    and "Get (PendingAllocatedClaims w) (UID claim) selectedNode = Some devices"
  shows "(update_fault io = None \<longrightarrow>
            snd (driver_allocate io w claim (GpuClaimParameters claimParams) selectedNode)
              = Inr (buildAllocationResult selectedNode True)
          \<and> nas (fst (driver_allocate io w claim (GpuClaimParameters claimParams) selectedNode))
              = (nas w)(selectedNode \<mapsto> set_claim (make_claims fetched) (UID claim) devices)
          \<and> PendingAllocatedClaims (fst (driver_allocate io w claim (GpuClaimParameters claimParams) selectedNode))
              = Remove (PendingAllocatedClaims w) (UID claim)
          \<and> (\<forall>node. \<not> Exists (PendingAllocatedClaims
                 (fst (driver_allocate io w claim (GpuClaimParameters claimParams) selectedNode)))
                 (UID claim) node))
     \<and> (\<forall>err. update_fault io = Some err \<longrightarrow>
            driver_allocate io w claim (GpuClaimParameters claimParams) selectedNode
              = (w, Inl (UpdatingCRD err))
          \<and> Get (PendingAllocatedClaims w) (UID claim) selectedNode = Some devices)"
  unfolding driver_allocate_fetched [OF assms(1-4)]
  using assms(5,6)
  by (simp add: Exists_def Remove_def delete_conv')

text \<open>
  The commit of the staged claim, with a transport that works and with one whose write
  fails with a conflict.
\<close>

theorem C8_commit_write_outcome_witness:
  "snd (driver_allocate no_fault
       (example_world None [(''claim-1'', ''node-1'', allocated_devices [''gpu-a''])])
       (example_claim ''claim-1'') (GpuClaimParameters \<lparr>Count = 1\<rparr>) ''node-1'')
     = Inr (buildAllocationResult ''node-1'' True)
   \<and> PendingAllocatedClaims (fst (driver_allocate no_fault
       (example_world None [(''claim-1'', ''node-1'', allocated_devices [''gpu-a''])])
       (example_claim ''claim-1'') (GpuClaimParameters \<lparr>Count = 1\<rparr>) ''node-1''))
     = Remove [(''claim-1'', ''node-1'', allocated_devices [''gpu-a''])] ''claim-1''
   \<and> driver_allocate write_fault
       (example_world None [(''claim-1'', ''node-1'', allocated_devices [''gpu-a''])])
       (example_claim ''claim-1'') (GpuClaimParameters \<lparr>Count = 1\<rparr>) ''node-1''
     = (example_world None [(''claim-1'', ''node-1'', allocated_devices [''gpu-a''])],
        Inl (UpdatingCRD (StoreFailure ''conflict'')))"
proof -
  let ?w = "example_world None [(''claim-1'', ''node-1'', allocated_devices [''gpu-a''])]"
  have n: "''node-1'' \<noteq> ''''" by simp
  have s: "nas ?w ''node-1'' = Some (example_record None)"
    and r: "Status (example_record None) = NodeAllocationStateStatusReady"
    and c: "map_of (claims_of (example_record None)) (UID (example_claim ''claim-1'')) = None"
    and g: "Get (PendingAllocatedClaims ?w) (UID (example_claim ''claim-1'')) ''node-1''
        = Some (allocated_devices [''gpu-a''])"
    by (simp_all add: example_world_simps Get_def)
  show ?thesis
    using C8_commit_write_outcome [OF n no_fault_simps(1) s r c g, of "\<lparr>Count = 1\<rparr>"]
      C8_commit_write_outcome [OF n write_fault_simps(1) s r c g, of "\<lparr>Count = 1\<rparr>"]
    by (simp add: no_fault_simps write_fault_simps example_world_simps)
qed

section \<open>Evaluation of a node that is not ready\<close>

text \<open>
  C6. When the fetch of the record of the candidate node fails, or the record is not
  ready, the evaluation returns nil with the world as it was, cache and store, and with
  the node appended to the unsuitable nodes of every claim of the batch, nothing else of
  the batch changed. The result does not depend on \<open>pick\<close>: the allocator is not run.
\<close>

theorem C6_unready_node_unsuitable:
  assumes "(\<exists>err. client_Get (get_fault io) (nas w) potentialNode = Inl err)
     \<or> (\<exists>crd. client_Get (get_fault io) (nas w) potentialNode = Inr crd
            \<and> Status crd \<noteq> NodeAllocationStateStatusReady)"
  shows "driver_unsuitableNode pick io w allcas potentialNode
           = (w, mark_unsuitable potentialNode allcas, None)
     \<and> map UnsuitableNodes (mark_unsuitable potentialNode allcas)
           = map (\<lambda>ca. UnsuitableNodes ca @ [potentialNode]) allcas
     \<and> map Claim (mark_unsuitable potentialNode allcas) = map Claim allcas
     \<and> map ClaimParameters (mark_unsuitable potentialNode allcas) = map ClaimParameters allcas"
  using assms
  by (auto simp: driver_unsuitableNode_def mark_unsuitable_fields)

text \<open>
  A record that is not ready, and a node without a record, with an allocation pending in
  the cache.
\<close>

theorem C6_unready_node_unsuitable_witness:
  "driver_unsuitableNode (\<lambda>av. 0) no_fault example_not_ready
       [example_ca ''claim-1'' 1, example_ca ''claim-2'' 1] ''node-1''
     = (example_not_ready,
        mark_unsuitable ''node-1'' [example_ca ''claim-1'' 1, example_ca ''claim-2'' 1], None)
   \<and> driver_unsuitableNode (\<lambda>av. 0) no_fault example_not_ready
       [example_ca ''claim-1'' 1, example_ca ''claim-2'' 1] ''node-2''
     = (example_not_ready,
        mark_unsuitable ''node-2'' [example_ca ''claim-1'' 1, example_ca ''claim-2'' 1], None)
   \<and> map UnsuitableNodes (mark_unsuitable ''node-1'' [example_ca ''claim-1'' 1, example_ca ''claim-2'' 1])
     = map (\<lambda>ca. [''node-1'']) [example_ca ''claim-1'' 1, example_ca ''claim-2'' 1]"
proof -
  have a: "(\<exists>err. client_Get (get_fault no_fault) (nas example_not_ready) ''node-1'' = Inl err)
     \<or> (\<exists>crd. client_Get (get_fault no_fault) (nas example_not_ready) ''node-1'' = Inr crd
            \<and> Status crd \<noteq> NodeAllocationStateStatusReady)"
    by (simp add: client_Get_def no_fault_simps example_not_ready_def example_record_def
        NodeAllocationStateStatusReady_def)
  have b: "(\<exists>err. client_Get (get_fault no_fault) (nas example_not_ready) ''node-2'' = Inl err)
     \<or> (\<exists>crd. client_Get (get_fault no_fault) (nas example_not_ready) ''node-2'' = Inr crd
            \<and> Status crd \<noteq> NodeAllocationStateStatusReady)"
    by (simp add: client_Get_def no_fault_simps example_not_ready_def)
  show ?thesis
    using C6_unready_node_unsuitable [OF a, of "\<lambda>av. 0" "[example_ca ''claim-1'' 1, example_ca ''claim-2'' 1]"]
      C6_unready_node_unsuitable [OF b, of "\<lambda>av. 0" "[example_ca ''claim-1'' 1, example_ca ''claim-2'' 1]"]
    by (simp add: example_ca_def)
qed

section \<open>Release\<close>

text \<open>
  C3, amended. After a release has returned nil for a claim that names a node whose record
  holds the claim, the cache has no entry for the claim, on any node. A release that
  returns nil for any other claim (no node selected, or a record without the claim) has
  left the world as it was, the cache included.
\<close>

theorem C3_release_clears_pending:
  assumes "snd (driver_Deallocate io w claim) = None"
  shows "(committed_claim w claim \<longrightarrow>
            (\<forall>node. \<not> Exists (PendingAllocatedClaims (fst (driver_Deallocate io w claim))) (UID claim) node))
     \<and> (\<not> committed_claim w claim \<longrightarrow> fst (driver_Deallocate io w claim) = w)"
  using assms
  by (auto simp: driver_Deallocate_def committed_claim_def client_Get_def client_Update_def
      gpudriver_Deallocate_def claims_of_def Exists_def Remove_def delete_conv' Let_def
      split: sum.splits if_splits option.splits DeviceType.splits prod.splits)

text \<open>
  The claim is committed on \<open>node-1\<close> and pending on \<open>node-2\<close>: the release
  clears the pending entry.
\<close>

theorem C3_release_clears_pending_witness:
  "snd (driver_Deallocate no_fault
         (example_world (Some [(''claim-1'', allocated_devices [''gpu-a''])])
            [(''claim-1'', ''node-2'', allocated_devices [''gpu-x''])])
         (example_allocated_claim ''claim-1'' ''node-1'')) = None
   \<and> committed_claim
         (example_world (Some [(''claim-1'', allocated_devices [''gpu-a''])])
            [(''claim-1'', ''node-2'', allocated_devices [''gpu-x''])])
         (example_allocated_claim ''claim-1'' ''node-1'')
   \<and> (\<forall>node. \<not> Exists (PendingAllocatedClaims (fst (driver_Deallocate no_fault
         (example_world (Some [(''claim-1'', allocated_devices [''gpu-a''])])
            [(''claim-1'', ''node-2'', allocated_devices [''gpu-x''])])
         (example_allocated_claim ''claim-1'' ''node-1'')))) ''claim-1'' node)"
proof -
  let ?w = "example_world (Some [(''claim-1'', allocated_devices [''gpu-a''])])
            [(''claim-1'', ''node-2'', allocated_devices [''gpu-x''])]"
  let ?c = "example_allocated_claim ''claim-1'' ''node-1''"
  have s: "snd (driver_Deallocate no_fault ?w ?c) = None"
    by (simp add: driver_Deallocate_def getSelectedNode_def example_allocated_claim_def
        buildAllocationResult_def client_Get_def client_Update_def no_fault_simps
        example_world_def example_record_def example_claim_def allocated_devices_def
        AllocatedDevices_Type_def gpudriver_Deallocate_def Let_def)
  have c: "committed_claim ?w ?c"
    by (simp add: committed_claim_def getSelectedNode_def example_allocated_claim_def
        buildAllocationResult_def example_world_def example_record_def example_claim_def claims_of_def)
  have u: "UID ?c = ''claim-1''"
    by (simp add: example_allocated_claim_def example_claim_def)
  show ?thesis
    using C3_release_clears_pending [OF s] s c u by simp
qed

text \<open>
  C3 as stated fails on the two paths on which \<open>driver.Deallocate\<close> returns nil before
  it calls the gpudriver: for a claim with no selected node, and for a claim whose node has
  a record without the claim, the pending entry of the claim is still in the cache.
\<close>

theorem C3_release_noop_keeps_pending:
  "snd (driver_Deallocate no_fault
         (example_world None [(''claim-1'', ''node-1'', allocated_devices [''gpu-a''])])
         (example_claim ''claim-1'')) = None
   \<and> Exists (PendingAllocatedClaims (fst (driver_Deallocate no_fault
         (example_world None [(''claim-1'', ''node-1'', allocated_devices [''gpu-a''])])
         (example_claim ''claim-1'')))) ''claim-1'' ''node-1''
   \<and> snd (driver_Deallocate no_fault
         (example_world (Some []) [(''claim-1'', ''node-1'', allocated_devices [''gpu-a''])])
         (example_allocated_claim ''claim-1'' ''node-1'')) = None
   \<and> Exists (PendingAllocatedClaims (fst (driver_Deallocate no_fault
         (example_world (Some []) [(''claim-1'', ''node-1'', allocated_devices [''gpu-a''])])
         (example_allocated_claim ''claim-1'' ''node-1'')))) ''claim-1'' ''node-1''"
  by (simp add: driver_Deallocate_def getSelectedNode_def example_claim_def example_world_def
      example_allocated_claim_def buildAllocationResult_def client_Get_def no_fault_simps
      example_record_def Exists_def)

section \<open>Evaluation of a node that falls short\<close>

text \<open>
  C2. \<open>gpudriver.UnsuitableNode\<close> checks the count of a claim and stages the claim in
  the same loop, so the claims before the first one that falls short are staged already
  when the loop returns. On the node with two devices, for a batch of a claim for one
  device and a claim for three, whatever the order of the pool: the node is appended to the
  unsuitable nodes of both claims, and the first claim is pending on the node. With the
  pool in the order of the inventory the cache holds \<open>claim-1\<close> with \<open>gpu-a\<close>.
\<close>

theorem C2_shortfall_leaves_earlier_claims_staged:
  "Exists (PendingAllocatedClaims (fst (driver_unsuitableNode pick no_fault (example_world None [])
       [example_ca ''claim-1'' 1, example_ca ''claim-2'' 3] ''node-1''))) ''claim-1'' ''node-1''
   \<and> fst (snd (driver_unsuitableNode pick no_fault (example_world None [])
       [example_ca ''claim-1'' 1, example_ca ''claim-2'' 3] ''node-1''))
     = mark_unsuitable ''node-1'' [example_ca ''claim-1'' 1, example_ca ''claim-2'' 3]
   \<and> driver_unsuitableNode (\<lambda>av. 0) no_fault (example_world None [])
       [example_ca ''claim-1'' 1, example_ca ''claim-2'' 3] ''node-1''
     = (example_world None [(''claim-1'', ''node-1'', allocated_devices [''gpu-a''])],
        mark_unsuitable ''node-1'' [example_ca ''claim-1'' 1, example_ca ''claim-2'' 3], None)"
proof -
  let ?av = "[(''gpu-a'', \<lparr>AllocatableGpu_UUID = ''gpu-a''\<rparr>), (''gpu-b'', \<lparr>AllocatableGpu_UUID = ''gpu-b''\<rparr>)]"
  have "pick ?av mod 2 = 0 \<or> pick ?av mod 2 = 1" by arith
  then show ?thesis
    by (auto simp add: driver_unsuitableNode_def gpudriver_UnsuitableNode_def gpudriver_allocate_def
      AllocatableDevice_Type_def AllocatedDevices_Type_def
      client_Get_def no_fault_simps example_world_def example_record_def example_ca_def
      example_claim_def example_gpu_def NodeAllocationStateStatusReady_def make_claims_def
      claims_of_def VisitNode_def Set_def Exists_def eval_nat_numeral)
qed

section \<open>The invariant\<close>

subsection \<open>Association lists\<close>

lemma set_update_subset: "set (AList.update k v al) \<subseteq> insert (k, v) (set al)"
  by (induction al) auto

lemma set_update_absent:
  "map_of al k = None \<Longrightarrow> set (AList.update k v al) = insert (k, v) (set al)"
  by (induction al) (auto split: if_splits)

lemma set_delete: "set (AList.delete k al) = {x \<in> set al. fst x \<noteq> k}"
  by (induction al) auto

lemma keys_delete: "fst ` set (AList.delete k av) = fst ` set av - {k}"
  by (auto simp: set_delete)

subsection \<open>Holds\<close>

lemma holds_disjointI:
  assumes "\<And>c a. (c, a) \<in> set hs \<Longrightarrow> gpu_uuids a \<subseteq> inventory"
    and "\<And>c a d b. (c, a) \<in> set hs \<Longrightarrow> (d, b) \<in> set hs \<Longrightarrow> c \<noteq> d \<Longrightarrow> gpu_uuids a \<inter> gpu_uuids b = {}"
  shows "holds_disjoint inventory hs"
  unfolding holds_disjoint_def using assms by blast

lemma holds_disjoint_mono:
  "holds_disjoint inventory hs \<Longrightarrow> set hs' \<subseteq> set hs \<Longrightarrow> holds_disjoint inventory hs'"
  unfolding holds_disjoint_def by blast

lemma set_uncommitted_pending:
  "set (uncommitted_pending crd p node) = {(c, a). (c, node, a) \<in> set p \<and> map_of (claims_of crd) c = None}"
  by (force simp: uncommitted_pending_def)

lemma gpu_uuids_allocated_devices: "gpu_uuids (allocated_devices gpus) = set gpus"
  by (simp add: gpu_uuids_def allocated_devices_def image_image)

lemma inventory_uuids_cong:
  "AllocatableDevices (Spec crd') = AllocatableDevices (Spec crd) \<Longrightarrow> inventory_uuids crd' = inventory_uuids crd"
  by (simp add: inventory_uuids_def)

lemma inventory_set_claim: "AllocatableDevices (Spec (set_claim crd c a)) = AllocatableDevices (Spec crd)"
  by (simp add: set_claim_def)

lemma inventory_make_claims: "inventory_uuids (make_claims crd) = inventory_uuids crd"
  by (simp add: inventory_uuids_def make_claims_def split: option.splits)

lemma node_consistent_cong:
  assumes "claims_of crd' = claims_of crd" "inventory_uuids crd' = inventory_uuids crd"
  shows "node_consistent crd' p node = node_consistent crd p node"
  using assms by (simp add: node_consistent_def uncommitted_pending_def)

lemma node_consistent_make_claims:
  "node_consistent (make_claims crd) p node = node_consistent crd p node"
  by (rule node_consistent_cong) (simp_all add: claims_of_make_claims inventory_make_claims)

lemma node_consistent_pending_subset:
  assumes "node_consistent crd p node"
    and "\<And>c a. (c, node, a) \<in> set p' \<Longrightarrow> map_of (claims_of crd) c = None \<Longrightarrow> (c, node, a) \<in> set p"
  shows "node_consistent crd p' node"
  using assms(1) unfolding node_consistent_def
  by (rule holds_disjoint_mono) (use assms(2) in \<open>auto simp: set_uncommitted_pending\<close>)

lemma node_consistent_record: "node_consistent crd p node \<Longrightarrow> record_invariant crd"
  unfolding record_invariant_def node_consistent_def
  by (erule holds_disjoint_mono) simp

lemma world_invariant_records: "world_invariant w \<Longrightarrow> records_invariant w"
  unfolding world_invariant_def records_invariant_def
  by (blast intro: node_consistent_record)

subsection \<open>The visit of the pending allocations\<close>

text \<open>
  The visit, from any record in hand and any cache, over a list of entries with one entry
  at most for a claim: the entries of the node whose claim the record in hand does not
  hold are added to the record, the inventory is kept, and the cache loses entries only.
\<close>

lemma reconcile_fold:
  assumes "distinct (map fst q)"
    and "fold (\<lambda>(claimUID, n, allocation) s. if n = node then reconcile_visitor claimUID allocation s else s)
           q (crd1, p1) = (crd2, p2)"
  shows "set (claims_of crd2)
           = set (claims_of crd1) \<union> {(c, a). (c, node, a) \<in> set q \<and> map_of (claims_of crd1) c = None}
       \<and> AllocatableDevices (Spec crd2) = AllocatableDevices (Spec crd1)
       \<and> set p2 \<subseteq> set p1
       \<and> (distinct (map fst p1) \<longrightarrow> distinct (map fst p2))"
  using assms
proof (induction q arbitrary: crd1 p1)
  case Nil
  then show ?case by simp
next
  case (Cons x q)
  obtain c n a where x: "x = (c, n, a)" by (cases x)
  from Cons.prems(1) x have dq: "distinct (map fst q)" and cq: "c \<notin> fst ` set q" by auto
  show ?case
  proof (cases "n = node")
    case False
    with Cons.prems(2) x
    have "fold (\<lambda>(claimUID, n, allocation) s. if n = node then reconcile_visitor claimUID allocation s else s)
           q (crd1, p1) = (crd2, p2)" by simp
    from Cons.IH [OF dq this] False x show ?thesis by auto
  next
    case True
    show ?thesis
    proof (cases "map_of (claims_of crd1) c = None")
      case False
      with Cons.prems(2) x True
      have "fold (\<lambda>(claimUID, n, allocation) s. if n = node then reconcile_visitor claimUID allocation s else s)
           q (crd1, Remove p1 c) = (crd2, p2)" by (simp add: reconcile_visitor_def)
      from Cons.IH [OF dq this] False x show ?thesis
        by (auto simp: Remove_def set_delete distinct_delete)
    next
      case None: True
      with Cons.prems(2) x True
      have "fold (\<lambda>(claimUID, n, allocation) s. if n = node then reconcile_visitor claimUID allocation s else s)
           q (set_claim crd1 c a, p1) = (crd2, p2)" by (simp add: reconcile_visitor_def)
      from Cons.IH [OF dq this]
      have ih: "set (claims_of crd2)
           = set (claims_of (set_claim crd1 c a))
             \<union> {(c', a'). (c', node, a') \<in> set q \<and> map_of (claims_of (set_claim crd1 c a)) c' = None}"
        and rest: "AllocatableDevices (Spec crd2) = AllocatableDevices (Spec crd1)"
          "set p2 \<subseteq> set p1" "distinct (map fst p1) \<longrightarrow> distinct (map fst p2)"
        by (simp_all add: inventory_set_claim)
      have s: "set (claims_of (set_claim crd1 c a)) = insert (c, a) (set (claims_of crd1))"
        by (simp add: claims_of_set_claim set_update_absent None)
      have m: "\<And>c' a'. (c', node, a') \<in> set q \<Longrightarrow>
          map_of (claims_of (set_claim crd1 c a)) c' = map_of (claims_of crd1) c'"
      proof -
        fix c' a' assume "(c', node, a') \<in> set q"
        then have "c' \<in> fst ` set q" by force
        with cq have "c' \<noteq> c" by auto
        then show "map_of (claims_of (set_claim crd1 c a)) c' = map_of (claims_of crd1) c'"
          by (simp add: claims_of_set_claim update_conv')
      qed
      have "set (claims_of crd2)
           = set (claims_of crd1) \<union> {(c', a'). (c', node, a') \<in> set (x # q) \<and> map_of (claims_of crd1) c' = None}"
        unfolding ih s using m None x True by auto
      with rest show ?thesis by simp
    qed
  qed
qed

subsection \<open>The pool of available devices\<close>

lemma avail_ok_update:
  "avail_ok av \<Longrightarrow> avail_ok (AList.update (AllocatableGpu_UUID g) g av)"
  unfolding avail_ok_def using set_update_subset [of "AllocatableGpu_UUID g" g av]
  by (auto simp: distinct_update)

lemma avail_ok_delete: "avail_ok av \<Longrightarrow> avail_ok (AList.delete k av)"
  unfolding avail_ok_def by (auto simp: distinct_delete set_delete)

lemma add_available_ok: "avail_ok av \<Longrightarrow> avail_ok (add_available ds av)"
  by (induction ds arbitrary: av)
     (auto simp: avail_ok_update AllocatableDevice_Type_def split: option.splits)

lemma add_available_keys:
  "fst ` set (add_available ds av)
     \<subseteq> fst ` set av \<union> set (map AllocatableGpu_UUID (List.map_filter AllocatableDevice_Gpu ds))"
proof (induction ds arbitrary: av)
  case Nil
  then show ?case by simp
next
  case (Cons d ds)
  show ?case
  proof (cases "AllocatableDevice_Gpu d")
    case None
    with Cons.IH [of av] show ?thesis
      by (auto simp: List.map_filter_simps AllocatableDevice_Type_def)
  next
    case (Some g)
    with Cons.IH [of "AList.update (AllocatableGpu_UUID g) g av"] show ?thesis
      by (auto simp: List.map_filter_simps dom_update AllocatableDevice_Type_def)
  qed
qed

lemma delete_devices_ok: "avail_ok av \<Longrightarrow> avail_ok (delete_devices ds av)"
  by (induction ds arbitrary: av) (auto simp: avail_ok_delete)

lemma delete_devices_keys:
  "fst ` set (delete_devices ds av) = fst ` set av - AllocatedGpu_UUID ` set ds"
  by (induction ds arbitrary: av) (auto simp: keys_delete)

lemma remove_allocated_ok: "avail_ok av \<Longrightarrow> avail_ok (remove_allocated ac av)"
  by (induction ac av rule: remove_allocated.induct)
     (auto simp: delete_devices_ok AllocatedDevices_Type_def split: option.splits)

lemma remove_allocated_keys:
  "fst ` set (remove_allocated ac av) = fst ` set av - (\<Union>(c, a) \<in> set ac. gpu_uuids a)"
proof (induction ac av rule: remove_allocated.induct)
  case (1 av)
  then show ?case by simp
next
  case (2 claimUID allocation rest av)
  show ?case
  proof (cases "AllocatedDevices_Gpu allocation")
    case None
    with 2 show ?thesis by (auto simp: gpu_uuids_def AllocatedDevices_Type_def)
  next
    case (Some g)
    with 2 show ?thesis by (auto simp: gpu_uuids_def delete_devices_keys AllocatedDevices_Type_def)
  qed
qed

text \<open>
  The devices taken for a claim are keys of the pool, and leave the pool.
\<close>

lemma take_devices_spec:
  assumes "avail_ok av" and "take_devices pick n av devices = (av', devices')"
  shows "avail_ok av' \<and>
     (\<exists>taken. devices' = devices @ taken \<and> set taken \<subseteq> fst ` set av
        \<and> fst ` set av' = fst ` set av - set taken)"
  using assms
proof (induction n arbitrary: av devices)
  case 0
  then show ?case by simp
next
  case (Suc n)
  show ?case
  proof (cases "av = []")
    case True
    with Suc.prems have "take_devices pick n av devices = (av', devices')" by simp
    from Suc.IH [OF Suc.prems(1) this] show ?thesis .
  next
    case False
    define i where "i = pick av mod length av"
    define device where "device = snd (av ! i)"
    define k where "k = AllocatableGpu_UUID device"
    from False have i: "i < length av" by (simp add: i_def)
    then have mem: "av ! i \<in> set av" by simp
    have "fst (av ! i) = k"
      using Suc.prems(1) mem unfolding avail_ok_def k_def device_def
      by (cases "av ! i") auto
    with mem have kin: "k \<in> fst ` set av" by force
    from Suc.prems(2) False
    have t: "take_devices pick n (AList.delete k av) (devices @ [k]) = (av', devices')"
      by (simp add: Let_def i_def device_def k_def)
    from Suc.IH [OF avail_ok_delete [OF Suc.prems(1)] t]
    obtain taken where ok: "avail_ok av'" and d: "devices' = (devices @ [k]) @ taken"
      and s: "set taken \<subseteq> fst ` set (AList.delete k av)"
      and r: "fst ` set av' = fst ` set (AList.delete k av) - set taken"
      by blast
    have "devices' = devices @ (k # taken)" using d by simp
    moreover have "set (k # taken) \<subseteq> fst ` set av" using s kin by (auto simp: keys_delete)
    moreover have "fst ` set av' = fst ` set av - set (k # taken)" using r by (auto simp: keys_delete)
    ultimately show ?thesis using ok by blast
  qed
qed

subsection \<open>The loops of the allocator and of UnsuitableNode\<close>

lemma allocate_claims_inv:
  assumes "alloc_inv free ac av allocated"
    and "allocate_claims pick ac cas av allocated = Inr allocated'"
  shows "\<exists>av'. alloc_inv free ac av' allocated'"
  using assms
proof (induction cas arbitrary: av allocated)
  case Nil
  then show ?case by auto
next
  case (Cons ca cas)
  define c where "c = UID (Claim ca)"
  show ?case
  proof (cases "map_of ac c")
    case (Some a)
    with Cons.prems(2) obtain g where g: "AllocatedDevices_Gpu a = Some g"
      and r: "allocate_claims pick ac cas av
                (allocated(c := allocated c @ map AllocatedGpu_UUID (Devices g))) = Inr allocated'"
      by (auto simp: c_def Let_def split: option.splits)
    have "alloc_inv free ac av (allocated(c := allocated c @ map AllocatedGpu_UUID (Devices g)))"
      using Cons.prems(1) Some g unfolding alloc_inv_def
      by (auto simp: gpu_uuids_def)
    from Cons.IH [OF this r] show ?thesis .
  next
    case None
    with Cons.prems(2) obtain claimParams where
      cp: "ClaimParameters ca = GpuClaimParameters claimParams"
      by (cases "ClaimParameters ca") (auto simp: c_def Let_def)
    obtain av1 devices where
      t: "take_devices pick (nat (Count claimParams)) av [] = (av1, devices)"
      by (cases "take_devices pick (nat (Count claimParams)) av []")
    with Cons.prems(2) None cp
    have r: "allocate_claims pick ac cas av1 (allocated(c := devices)) = Inr allocated'"
      by (simp add: c_def Let_def)
    from Cons.prems(1) have ok: "avail_ok av" by (simp add: alloc_inv_def)
    from take_devices_spec [OF ok t]
    have ok1: "avail_ok av1" and sub: "set devices \<subseteq> fst ` set av"
      and keys: "fst ` set av1 = fst ` set av - set devices"
      by auto
    have "alloc_inv free ac av1 (allocated(c := devices))"
      unfolding alloc_inv_def
    proof (intro conjI allI impI)
      show "avail_ok av1" by (rule ok1)
      show "fst ` set av1 \<subseteq> free" using Cons.prems(1) keys by (auto simp: alloc_inv_def)
    next
      fix d assume "map_of ac d = None"
      then have "set (allocated d) \<subseteq> free - fst ` set av"
        using Cons.prems(1) by (simp add: alloc_inv_def)
      moreover have "set devices \<subseteq> free" using sub Cons.prems(1) by (auto simp: alloc_inv_def)
      ultimately show "set ((allocated(c := devices)) d) \<subseteq> free - fst ` set av1"
        using keys by auto
    next
      fix d e assume de: "d \<noteq> e \<and> map_of ac d = None \<and> map_of ac e = None"
      then have 1: "set (allocated d) \<inter> set (allocated e) = {}"
        and 2: "set (allocated d) \<subseteq> free - fst ` set av"
        and 3: "set (allocated e) \<subseteq> free - fst ` set av"
        using Cons.prems(1) by (simp_all add: alloc_inv_def)
      show "set ((allocated(c := devices)) d) \<inter> set ((allocated(c := devices)) e) = {}"
        using de 1 2 3 sub by auto
    next
      fix d a assume "map_of ac d = Some a"
      then show "set ((allocated(c := devices)) d) \<subseteq> gpu_uuids a"
        using Cons.prems(1) None by (auto simp: alloc_inv_def)
    qed
    from Cons.IH [OF this r] show ?thesis .
  qed
qed

lemma stage_claims_spec:
  assumes "stage_claims node allocated cas p = (p', res)"
  shows "set p' \<subseteq> set p \<union> range (\<lambda>c. (c, node, allocated_devices (allocated c)))
     \<and> (distinct (map fst p) \<longrightarrow> distinct (map fst p'))"
  using assms
proof (induction cas arbitrary: p)
  case Nil
  then show ?case by simp
next
  case (Cons ca cas)
  show ?case
  proof (cases "ClaimParameters ca")
    case OtherClaimParameters
    with Cons.prems show ?thesis by auto
  next
    case (GpuClaimParameters claimParams)
    show ?thesis
    proof (cases "Count claimParams \<noteq> int (length (allocated (UID (Claim ca))))")
      case True
      with Cons.prems GpuClaimParameters show ?thesis by auto
    next
      case False
      with Cons.prems GpuClaimParameters
      have "stage_claims node allocated cas
              (Set p (UID (Claim ca)) node (allocated_devices (allocated (UID (Claim ca))))) = (p', res)"
        by (simp add: Let_def)
      from Cons.IH [OF this]
      have a: "set p' \<subseteq> set (Set p (UID (Claim ca)) node (allocated_devices (allocated (UID (Claim ca)))))
                 \<union> range (\<lambda>c. (c, node, allocated_devices (allocated c)))"
        and b: "distinct (map fst (Set p (UID (Claim ca)) node (allocated_devices (allocated (UID (Claim ca))))))
                 \<longrightarrow> distinct (map fst p')"
        by simp_all
      have c: "set (Set p (UID (Claim ca)) node (allocated_devices (allocated (UID (Claim ca)))))
                 \<subseteq> insert (UID (Claim ca), node, allocated_devices (allocated (UID (Claim ca)))) (set p)"
        unfolding Set_def by (rule set_update_subset)
      have "set p' \<subseteq> set p \<union> range (\<lambda>c. (c, node, allocated_devices (allocated c)))"
        using a c by auto
      moreover have "distinct (map fst p) \<longrightarrow> distinct (map fst p')"
        using b by (simp add: Set_def distinct_update)
      ultimately show ?thesis by simp
    qed
  qed
qed

text \<open>
  \<open>gpudriver.UnsuitableNode\<close> keeps the cache consistent with the record of the node,
  also when it returns at a shortfall or panics, and adds no entry on another node.
\<close>

lemma gpudriver_UnsuitableNode_consistent:
  assumes dist: "distinct (map fst p)"
    and cons: "node_consistent crd p node"
    and run: "gpudriver_UnsuitableNode pick p crd gpucas allcas node = (p'', allcas', err)"
  shows "distinct (map fst p'') \<and> node_consistent crd p'' node
     \<and> (\<forall>c n a. (c, n, a) \<in> set p'' \<and> n \<noteq> node \<longrightarrow> (c, n, a) \<in> set p)"
proof -
  obtain crd' p' where vis: "VisitNode p node reconcile_visitor (crd, p) = (crd', p')"
    by (cases "VisitNode p node reconcile_visitor (crd, p)")
  from reconcile_fold [OF dist vis [unfolded VisitNode_def]]
  have W: "set (claims_of crd')
           = set (claims_of crd) \<union> {(c, a). (c, node, a) \<in> set p \<and> map_of (claims_of crd) c = None}"
    and inv: "AllocatableDevices (Spec crd') = AllocatableDevices (Spec crd)"
    and sub: "set p' \<subseteq> set p" and dist': "distinct (map fst p')"
    using dist by simp_all
  define I where "I = inventory_uuids crd"
  define ac where "ac = claims_of crd'"
  define U where "U = (\<Union>(c, a) \<in> set ac. gpu_uuids a)"
  have I': "inventory_uuids crd' = I" unfolding I_def using inv by (rule inventory_uuids_cong)
  have H: "holds_disjoint I ac"
    using cons unfolding node_consistent_def I_def ac_def
    by (rule holds_disjoint_mono) (simp add: W set_uncommitted_pending)
  have consp': "node_consistent crd p' node"
    using cons by (rule node_consistent_pending_subset) (use sub in auto)
  show ?thesis
  proof (cases "gpudriver_allocate pick crd' gpucas")
    case (Inl e)
    with run vis have "p'' = p'" by (simp add: gpudriver_UnsuitableNode_def)
    with dist' consp' sub show ?thesis by auto
  next
    case (Inr allocated)
    obtain res where st: "stage_claims node allocated gpucas p' = (p'', res)"
      using run vis Inr
      by (cases "stage_claims node allocated gpucas p'")
         (auto simp: gpudriver_UnsuitableNode_def split: sum.splits bool.splits)
    from stage_claims_spec [OF st] dist'
    have sub'': "set p'' \<subseteq> set p' \<union> range (\<lambda>c. (c, node, allocated_devices (allocated c)))"
      and dist'': "distinct (map fst p'')" by simp_all
    define av0 where "av0 = remove_allocated ac (add_available (AllocatableDevices (Spec crd')) [])"
    have ok0: "avail_ok av0"
      unfolding av0_def by (intro remove_allocated_ok add_available_ok) (simp add: avail_ok_def)
    have keys0: "fst ` set av0 \<subseteq> I - U"
      using add_available_keys [of "AllocatableDevices (Spec crd')" "[]"]
      unfolding av0_def remove_allocated_keys U_def I'[symmetric] inventory_uuids_def
      by auto
    have "alloc_inv (I - U) ac av0 (\<lambda>claimUID. [])"
      unfolding alloc_inv_def using ok0 keys0 by simp
    moreover have "allocate_claims pick ac gpucas av0 (\<lambda>claimUID. []) = Inr allocated"
      using Inr unfolding gpudriver_allocate_def ac_def av0_def by simp
    ultimately obtain av' where "alloc_inv (I - U) ac av' allocated"
      using allocate_claims_inv by blast
    then have A1: "\<And>c. map_of ac c = None \<Longrightarrow> set (allocated c) \<subseteq> I - U"
      and A2: "\<And>c d. c \<noteq> d \<Longrightarrow> map_of ac c = None \<Longrightarrow> map_of ac d = None \<Longrightarrow>
                 set (allocated c) \<inter> set (allocated d) = {}"
      and A3: "\<And>c a. map_of ac c = Some a \<Longrightarrow> set (allocated c) \<subseteq> gpu_uuids a"
      unfolding alloc_inv_def by blast+
    have cover: "(\<exists>a'. (c, a') \<in> set ac \<and> gpu_uuids a \<subseteq> gpu_uuids a')
        \<or> (map_of ac c = None \<and> gpu_uuids a = set (allocated c))"
      if "(c, a) \<in> set (claims_of crd @ uncommitted_pending crd p'' node)" for c a
    proof (cases "(c, a) \<in> set ac")
      case True
      then show ?thesis by blast
    next
      case False
      with that have m: "(c, node, a) \<in> set p''" "map_of (claims_of crd) c = None"
        by (auto simp: ac_def W set_uncommitted_pending)
      with False sub have "(c, node, a) \<notin> set p'"
        by (auto simp: ac_def W)
      with m(1) sub'' have a: "a = allocated_devices (allocated c)" by auto
      show ?thesis
      proof (cases "map_of ac c")
        case None
        with a show ?thesis by (simp add: gpu_uuids_allocated_devices)
      next
        case (Some a')
        then have "(c, a') \<in> set ac" by (rule map_of_SomeD)
        moreover have "gpu_uuids a \<subseteq> gpu_uuids a'"
          using A3 [OF Some] a by (simp add: gpu_uuids_allocated_devices)
        ultimately show ?thesis by blast
      qed
    qed
    have old: "gpu_uuids a' \<subseteq> I \<and> gpu_uuids a' \<subseteq> U" if "(c, a') \<in> set ac" for c a'
      using H that unfolding holds_disjoint_def U_def by auto
    have "holds_disjoint I (claims_of crd @ uncommitted_pending crd p'' node)"
    proof (rule holds_disjointI)
      fix c a assume x: "(c, a) \<in> set (claims_of crd @ uncommitted_pending crd p'' node)"
      from cover [OF x] A1 [of c] old [of c]
      show "gpu_uuids a \<subseteq> I" by blast
    next
      fix c a d b assume x: "(c, a) \<in> set (claims_of crd @ uncommitted_pending crd p'' node)"
        and y: "(d, b) \<in> set (claims_of crd @ uncommitted_pending crd p'' node)"
        and ne: "c \<noteq> d"
      from cover [OF x] consider
        a' where "(c, a') \<in> set ac" "gpu_uuids a \<subseteq> gpu_uuids a'"
        | "map_of ac c = None" "gpu_uuids a = set (allocated c)" by auto
      then show "gpu_uuids a \<inter> gpu_uuids b = {}"
      proof cases
        case 1
        from cover [OF y] consider
          b' where "(d, b') \<in> set ac" "gpu_uuids b \<subseteq> gpu_uuids b'"
          | "map_of ac d = None" "gpu_uuids b = set (allocated d)" by auto
        then show ?thesis
        proof cases
          case (1 b')
          from H \<open>(c, a') \<in> set ac\<close> 1(1) ne have "gpu_uuids a' \<inter> gpu_uuids b' = {}"
            unfolding holds_disjoint_def by blast
          with \<open>gpu_uuids a \<subseteq> gpu_uuids a'\<close> 1(2) show ?thesis by blast
        next
          case 2
          from old [OF \<open>(c, a') \<in> set ac\<close>] \<open>gpu_uuids a \<subseteq> gpu_uuids a'\<close>
          have "gpu_uuids a \<subseteq> U" by blast
          moreover from A1 [OF 2(1)] 2(2) have "gpu_uuids b \<subseteq> I - U" by simp
          ultimately show ?thesis by blast
        qed
      next
        case 2
        from cover [OF y] consider
          b' where "(d, b') \<in> set ac" "gpu_uuids b \<subseteq> gpu_uuids b'"
          | "map_of ac d = None" "gpu_uuids b = set (allocated d)" by auto
        then show ?thesis
        proof cases
          case (1 b')
          from old [OF 1(1)] 1(2) have "gpu_uuids b \<subseteq> U" by blast
          moreover from A1 [OF 2(1)] 2(2) have "gpu_uuids a \<subseteq> I - U" by simp
          ultimately show ?thesis by blast
        next
          case dnew: 2
          from A2 [OF ne 2(1) dnew(1)] 2(2) dnew(2) show ?thesis by simp
        qed
      qed
    qed
    then have "node_consistent crd p'' node" by (simp add: node_consistent_def I_def)
    moreover have "\<forall>c n a. (c, n, a) \<in> set p'' \<and> n \<noteq> node \<longrightarrow> (c, n, a) \<in> set p"
      using sub'' sub by auto
    ultimately show ?thesis using dist'' by simp
  qed
qed

subsection \<open>The three operations\<close>

lemma unsuitableNode_store:
  "nas (fst (driver_unsuitableNode pick io w allcas potentialNode)) = nas w"
  by (simp add: driver_unsuitableNode_def Let_def split: sum.splits prod.splits)

lemma unsuitableNode_invariant:
  assumes "world_invariant w"
  shows "world_invariant (fst (driver_unsuitableNode pick io w allcas potentialNode))"
proof (cases "client_Get (get_fault io) (nas w) potentialNode")
  case (Inl err)
  with assms show ?thesis by (simp add: driver_unsuitableNode_def)
next
  case (Inr fetched)
  note fetched = client_Get_Inr [OF Inr]
  show ?thesis
  proof (cases "Status fetched \<noteq> NodeAllocationStateStatusReady")
    case True
    with Inr assms show ?thesis by (simp add: driver_unsuitableNode_def)
  next
    case False
    show ?thesis
    proof (cases "perKindCas allcas []")
      case (Inl err)
      with Inr False assms show ?thesis by (simp add: driver_unsuitableNode_def)
    next
      case gpucas: (Inr gpucas)
      let ?p = "PendingAllocatedClaims w"
      obtain p'' allcas' err where
        run: "gpudriver_UnsuitableNode pick ?p (make_claims fetched) gpucas allcas potentialNode
                = (p'', allcas', err)"
        by (cases "gpudriver_UnsuitableNode pick ?p (make_claims fetched) gpucas allcas potentialNode")
      from Inr False gpucas run
      have w': "fst (driver_unsuitableNode pick io w allcas potentialNode)
                  = w\<lparr>PendingAllocatedClaims := p''\<rparr>"
        by (simp add: driver_unsuitableNode_def)
      from assms fetched have dist: "distinct (map fst ?p)"
        and cons: "node_consistent (make_claims fetched) ?p potentialNode"
        by (simp_all add: world_invariant_def node_consistent_make_claims)
      from gpudriver_UnsuitableNode_consistent [OF dist cons run]
      have d'': "distinct (map fst p'')"
        and c'': "node_consistent fetched p'' potentialNode"
        and other: "\<And>c n a. (c, n, a) \<in> set p'' \<Longrightarrow> n \<noteq> potentialNode \<Longrightarrow> (c, n, a) \<in> set ?p"
        by (simp_all add: node_consistent_make_claims)
      have "node_consistent crd p'' node" if "nas w node = Some crd" for node crd
      proof (cases "node = potentialNode")
        case True
        with that fetched c'' show ?thesis by simp
      next
        case False
        from assms that have "node_consistent crd ?p node" by (simp add: world_invariant_def)
        then show ?thesis
          by (rule node_consistent_pending_subset) (use False other in blast)
      qed
      with d'' show ?thesis unfolding w' by (simp add: world_invariant_def)
    qed
  qed
qed

lemma node_consistent_commit:
  assumes cons: "node_consistent crd p node"
    and absent: "map_of (claims_of crd) c = None"
    and staged: "map_of p c = Some (node, devices)"
  shows "node_consistent (set_claim (make_claims crd) c devices) (Remove p c) node"
proof -
  let ?crd' = "set_claim (make_claims crd) c devices"
  have cl: "claims_of ?crd' = AList.update c devices (claims_of crd)"
    by (simp add: claims_of_set_claim claims_of_make_claims)
  have inv: "inventory_uuids ?crd' = inventory_uuids crd"
    by (simp add: inventory_uuids_def set_claim_def make_claims_def split: option.splits)
  from staged have mem: "(c, node, devices) \<in> set p" by (rule map_of_SomeD)
  have "set (claims_of ?crd' @ uncommitted_pending ?crd' (Remove p c) node)
          \<subseteq> set (claims_of crd @ uncommitted_pending crd p node)"
    using mem absent
    by (auto simp: cl set_update_absent set_uncommitted_pending Remove_def set_delete update_conv'
        split: if_splits)
  with cons show ?thesis
    unfolding node_consistent_def inv by (rule holds_disjoint_mono)
qed

lemma allocate_invariant:
  assumes "world_invariant w"
  shows "world_invariant (fst (driver_allocate io w claim claimParameters selectedNode))"
proof (cases "selectedNode = '''' \<or> get_fault io \<noteq> None \<or> nas w selectedNode = None
     \<or> (\<exists>crd. nas w selectedNode = Some crd \<and> Status crd \<noteq> NodeAllocationStateStatusReady)")
  case True
  then obtain err where "driver_allocate io w claim claimParameters selectedNode = (w, Inl err)"
    using driver_allocate_not_fetched by blast
  with assms show ?thesis by simp
next
  case False
  then obtain fetched where f: "selectedNode \<noteq> ''''" "get_fault io = None" "nas w selectedNode = Some fetched"
    "Status fetched = NodeAllocationStateStatusReady" by auto
  let ?p = "PendingAllocatedClaims w"
  let ?c = "UID claim"
  show ?thesis
  proof (cases "fst (driver_allocate io w claim claimParameters selectedNode) = w")
    case True
    with assms show ?thesis by simp
  next
    case changed: False
    then obtain devices where
      absent: "map_of (claims_of fetched) ?c = None"
      and g: "Get ?p ?c selectedNode = Some devices"
      and w': "fst (driver_allocate io w claim claimParameters selectedNode)
         = w\<lparr>nas := (nas w)(selectedNode \<mapsto> set_claim (make_claims fetched) ?c devices),
              PendingAllocatedClaims := Remove ?p ?c\<rparr>"
      unfolding driver_allocate_fetched [OF f]
      by (auto split: if_splits ClaimParameters.splits option.splits)
    from g have staged: "map_of ?p ?c = Some (selectedNode, devices)"
      by (auto simp: Get_def split: option.splits if_splits)
    from assms have dist: "distinct (map fst ?p)"
      and cons: "\<And>node crd. nas w node = Some crd \<Longrightarrow> node_consistent crd ?p node"
      by (simp_all add: world_invariant_def)
    have "node_consistent crd (Remove ?p ?c) node"
      if "((nas w)(selectedNode \<mapsto> set_claim (make_claims fetched) ?c devices)) node = Some crd"
      for node crd
    proof (cases "node = selectedNode")
      case True
      with that have "crd = set_claim (make_claims fetched) ?c devices" by simp
      with True node_consistent_commit [OF cons [OF f(3)] absent staged] show ?thesis by simp
    next
      case False
      with that have "nas w node = Some crd" by simp
      from cons [OF this] show ?thesis
        by (rule node_consistent_pending_subset) (simp add: Remove_def set_delete)
    qed
    with dist show ?thesis
      unfolding w' by (simp add: world_invariant_def Remove_def distinct_delete)
  qed
qed

lemma node_consistent_release:
  assumes cons: "node_consistent crd p node"
  shows "node_consistent (delete_claim crd c) (Remove p c) node"
proof -
  have cl: "claims_of (delete_claim crd c) = AList.delete c (claims_of crd)"
    by (simp add: delete_claim_def claims_of_def)
  have inv: "inventory_uuids (delete_claim crd c) = inventory_uuids crd"
    by (simp add: inventory_uuids_def delete_claim_def)
  have "set (claims_of (delete_claim crd c) @ uncommitted_pending (delete_claim crd c) (Remove p c) node)
          \<subseteq> set (claims_of crd @ uncommitted_pending crd p node)"
    by (auto simp: cl set_uncommitted_pending Remove_def set_delete delete_conv' split: if_splits)
  with cons show ?thesis
    unfolding node_consistent_def inv by (rule holds_disjoint_mono)
qed

lemma Deallocate_invariant:
  assumes "world_invariant w"
  shows "world_invariant (fst (driver_Deallocate io w claim))"
proof -
  let ?p = "PendingAllocatedClaims w"
  let ?c = "UID claim"
  from assms have dist: "distinct (map fst ?p)"
    and cons: "\<And>node crd. nas w node = Some crd \<Longrightarrow> node_consistent crd ?p node"
    by (simp_all add: world_invariant_def)
  have removed: "world_invariant (w\<lparr>PendingAllocatedClaims := Remove ?p ?c\<rparr>)"
    unfolding world_invariant_def
  proof (intro conjI allI impI)
    show "distinct (map fst (PendingAllocatedClaims (w\<lparr>PendingAllocatedClaims := Remove ?p ?c\<rparr>)))"
      using dist by (simp add: Remove_def distinct_delete)
  next
    fix node crd assume "nas (w\<lparr>PendingAllocatedClaims := Remove ?p ?c\<rparr>) node = Some crd"
    then have "node_consistent crd ?p node" using cons by simp
    then have "node_consistent crd (Remove ?p ?c) node"
      by (rule node_consistent_pending_subset) (simp add: Remove_def set_delete)
    then show "node_consistent crd (PendingAllocatedClaims (w\<lparr>PendingAllocatedClaims := Remove ?p ?c\<rparr>)) node"
      by simp
  qed
  have written: "world_invariant
       (w\<lparr>nas := (nas w)(node \<mapsto> delete_claim crd ?c), PendingAllocatedClaims := Remove ?p ?c\<rparr>)"
    if "nas w node = Some crd" for node crd
    unfolding world_invariant_def
  proof (intro conjI allI impI)
    show "distinct (map fst (PendingAllocatedClaims
       (w\<lparr>nas := (nas w)(node \<mapsto> delete_claim crd ?c), PendingAllocatedClaims := Remove ?p ?c\<rparr>)))"
      using dist by (simp add: Remove_def distinct_delete)
  next
    fix n r assume a: "nas (w\<lparr>nas := (nas w)(node \<mapsto> delete_claim crd ?c),
        PendingAllocatedClaims := Remove ?p ?c\<rparr>) n = Some r"
    have "node_consistent r (Remove ?p ?c) n"
    proof (cases "n = node")
      case True
      with a have "r = delete_claim crd ?c" by simp
      with True node_consistent_release [OF cons [OF that]] show ?thesis by simp
    next
      case False
      with a have "nas w n = Some r" by simp
      from cons [OF this] show ?thesis
        by (rule node_consistent_pending_subset) (simp add: Remove_def set_delete)
    qed
    then show "node_consistent r (PendingAllocatedClaims
       (w\<lparr>nas := (nas w)(node \<mapsto> delete_claim crd ?c), PendingAllocatedClaims := Remove ?p ?c\<rparr>)) n"
      by simp
  qed
  have "fst (driver_Deallocate io w claim) = w
      \<or> fst (driver_Deallocate io w claim) = w\<lparr>PendingAllocatedClaims := Remove ?p ?c\<rparr>
      \<or> (\<exists>node crd. nas w node = Some crd \<and> fst (driver_Deallocate io w claim)
            = w\<lparr>nas := (nas w)(node \<mapsto> delete_claim crd ?c), PendingAllocatedClaims := Remove ?p ?c\<rparr>)"
    by (auto simp: driver_Deallocate_def client_Get_def client_Update_def gpudriver_Deallocate_def Let_def
        split: sum.splits option.splits DeviceType.splits)
  with assms removed written show ?thesis by auto
qed

lemma example_node_consistent:
  "node_consistent (example_record (Some [(''claim-0'', allocated_devices [''gpu-b''])]))
      [(''claim-1'', ''node-1'', allocated_devices [''gpu-a''])] ''node-1''"
  by (simp add: node_consistent_def holds_disjoint_def uncommitted_pending_def example_inventory
      example_world_simps gpu_uuids_allocated_devices)

lemma example_world_consistent:
  "world_invariant (example_world (Some [(''claim-0'', allocated_devices [''gpu-b''])])
      [(''claim-1'', ''node-1'', allocated_devices [''gpu-a''])])"
  using example_node_consistent
  by (simp add: world_invariant_def example_world_def)

text \<open>
  C1, amended. In a world where the cache is consistent with the store, every record of
  the store keeps the invariant of the spec (the devices of each committed claim are
  devices of the inventory, and two committed claims share no device), and after each of
  the three operations the cache is consistent with the store again, so every record keeps
  the invariant. The evaluation writes no record.
\<close>

theorem C1_operations_preserve_consistent_world:
  assumes "world_invariant w"
  shows "records_invariant w
     \<and> world_invariant (fst (driver_unsuitableNode pick io w allcas potentialNode))
     \<and> records_invariant (fst (driver_unsuitableNode pick io w allcas potentialNode))
     \<and> nas (fst (driver_unsuitableNode pick io w allcas potentialNode)) = nas w
     \<and> world_invariant (fst (driver_allocate io w claim claimParameters selectedNode))
     \<and> records_invariant (fst (driver_allocate io w claim claimParameters selectedNode))
     \<and> world_invariant (fst (driver_Deallocate io w claim))
     \<and> records_invariant (fst (driver_Deallocate io w claim))"
  using assms
  by (simp add: world_invariant_records unsuitableNode_invariant unsuitableNode_store
      allocate_invariant Deallocate_invariant)

text \<open>
  \<open>claim-0\<close> is committed with \<open>gpu-b\<close> and \<open>claim-1\<close> is pending with
  \<open>gpu-a\<close>: the commit of \<open>claim-1\<close> writes a record with both.
\<close>

theorem C1_operations_preserve_consistent_world_witness:
  "world_invariant (example_world (Some [(''claim-0'', allocated_devices [''gpu-b''])])
      [(''claim-1'', ''node-1'', allocated_devices [''gpu-a''])])
   \<and> records_invariant (fst (driver_allocate no_fault
        (example_world (Some [(''claim-0'', allocated_devices [''gpu-b''])])
           [(''claim-1'', ''node-1'', allocated_devices [''gpu-a''])])
        (example_claim ''claim-1'') (GpuClaimParameters \<lparr>Count = 1\<rparr>) ''node-1''))
   \<and> fst (driver_allocate no_fault
        (example_world (Some [(''claim-0'', allocated_devices [''gpu-b''])])
           [(''claim-1'', ''node-1'', allocated_devices [''gpu-a''])])
        (example_claim ''claim-1'') (GpuClaimParameters \<lparr>Count = 1\<rparr>) ''node-1'')
     = example_world (Some [(''claim-0'', allocated_devices [''gpu-b'']),
                            (''claim-1'', allocated_devices [''gpu-a''])]) []"
proof -
  have "fst (driver_allocate no_fault
        (example_world (Some [(''claim-0'', allocated_devices [''gpu-b''])])
           [(''claim-1'', ''node-1'', allocated_devices [''gpu-a''])])
        (example_claim ''claim-1'') (GpuClaimParameters \<lparr>Count = 1\<rparr>) ''node-1'')
     = example_world (Some [(''claim-0'', allocated_devices [''gpu-b'']),
                            (''claim-1'', allocated_devices [''gpu-a''])]) []"
    by (simp add: driver_allocate_def client_Get_def client_Update_def Let_def gpudriver_Allocate_def
      example_world_def example_record_def example_claim_def no_fault_def make_claims_def
      NodeAllocationStateStatusReady_def claims_of_def Exists_def Get_def set_claim_def Remove_def)
  with C1_operations_preserve_consistent_world [OF example_world_consistent,
      of "\<lambda>av. 0" no_fault "[]" "''node-1''" "example_claim ''claim-1''"
         "GpuClaimParameters \<lparr>Count = 1\<rparr>" "''node-1''"]
    example_world_consistent
  show ?thesis by simp
qed

text \<open>
  C1 as stated fails: the invariant of the records alone is not kept by a commit, which
  copies the pending allocation into the record without a look at the committed ones.
  The record holds \<open>claim-2\<close> with \<open>gpu-a\<close>, written since the evaluation that
  staged \<open>claim-1\<close> with \<open>gpu-a\<close>; the commit of \<open>claim-1\<close> books \<open>gpu-a\<close> twice.
\<close>

theorem C1_commit_of_conflicting_pending_allocation:
  "records_invariant (example_world (Some [(''claim-2'', allocated_devices [''gpu-a''])])
      [(''claim-1'', ''node-1'', allocated_devices [''gpu-a''])])
   \<and> \<not> records_invariant (fst (driver_allocate no_fault
        (example_world (Some [(''claim-2'', allocated_devices [''gpu-a''])])
           [(''claim-1'', ''node-1'', allocated_devices [''gpu-a''])])
        (example_claim ''claim-1'') (GpuClaimParameters \<lparr>Count = 1\<rparr>) ''node-1''))"
proof -
  have w': "fst (driver_allocate no_fault
        (example_world (Some [(''claim-2'', allocated_devices [''gpu-a''])])
           [(''claim-1'', ''node-1'', allocated_devices [''gpu-a''])])
        (example_claim ''claim-1'') (GpuClaimParameters \<lparr>Count = 1\<rparr>) ''node-1'')
     = example_world (Some [(''claim-2'', allocated_devices [''gpu-a'']),
                            (''claim-1'', allocated_devices [''gpu-a''])]) []"
    by (simp add: driver_allocate_def client_Get_def client_Update_def Let_def gpudriver_Allocate_def
      example_world_def example_record_def example_claim_def no_fault_def make_claims_def
      NodeAllocationStateStatusReady_def claims_of_def Exists_def Get_def set_claim_def Remove_def)
  have "records_invariant (example_world (Some [(''claim-2'', allocated_devices [''gpu-a''])])
      [(''claim-1'', ''node-1'', allocated_devices [''gpu-a''])])"
    by (simp add: records_invariant_def record_invariant_def holds_disjoint_def
      example_world_def example_inventory example_world_simps gpu_uuids_allocated_devices)
  moreover have "\<not> records_invariant (example_world (Some [(''claim-2'', allocated_devices [''gpu-a'']),
                            (''claim-1'', allocated_devices [''gpu-a''])]) [])"
  proof
    assume "records_invariant (example_world (Some [(''claim-2'', allocated_devices [''gpu-a'']),
                            (''claim-1'', allocated_devices [''gpu-a''])]) [])"
    then have "record_invariant (example_record (Some [(''claim-2'', allocated_devices [''gpu-a'']),
                            (''claim-1'', allocated_devices [''gpu-a''])]))"
      by (simp add: records_invariant_def example_world_def)
    then have "gpu_uuids (allocated_devices [''gpu-a'']) \<inter> gpu_uuids (allocated_devices [''gpu-a'']) = {}"
      by (simp add: record_invariant_def holds_disjoint_def example_record_def claims_of_def)
    then show False
      by (simp add: gpu_uuids_allocated_devices)
  qed
  ultimately show ?thesis by (simp add: w')
qed

subsection \<open>Runs from an empty cache\<close>

text \<open>
  Hence, from a store whose records keep the invariant and an empty cache, as
  \<open>NewGpuDriver\<close> makes it, every run of the driver leaves records that keep it.
\<close>

lemma step_invariant: "world_invariant w \<Longrightarrow> world_invariant (step operation w)"
  by (cases operation)
     (simp_all add: unsuitableNode_invariant allocate_invariant Deallocate_invariant)

lemma run_invariant: "world_invariant w \<Longrightarrow> world_invariant (run ops w)"
  unfolding run_def by (induction ops arbitrary: w) (simp_all add: step_invariant)

lemma empty_cache_consistent:
  assumes "PendingAllocatedClaims w = NewPerNodeAllocatedClaims" and "records_invariant w"
  shows "world_invariant w"
  using assms
  by (simp add: world_invariant_def records_invariant_def record_invariant_def node_consistent_def
      uncommitted_pending_def NewPerNodeAllocatedClaims_def)

lemma records_invariant_of_run:
  assumes "PendingAllocatedClaims w = NewPerNodeAllocatedClaims" and "records_invariant w"
  shows "records_invariant (run ops w)"
proof -
  from assms have "world_invariant w" by (rule empty_cache_consistent)
  then have "world_invariant (run ops w)" by (rule run_invariant)
  then show ?thesis by (rule world_invariant_records)
qed

section \<open>The allocator and the committed claims\<close>

text \<open>
  The output of the allocator for a claim that the record in hand holds: each occurrence
  of the claim in the batch appends the devices of the claim, in their order, and the
  pool is passed on as it is. A claim that occurs once gets its devices, and no committed
  device is in the pool the loop starts with.
\<close>

lemma allocate_claims_committed:
  assumes "map_of ac c = Some a" and "AllocatedDevices_Gpu a = Some g"
    and "allocate_claims pick ac cas av allocated = Inr allocated'"
  shows "allocated' c = allocated c @
     concat (replicate (count_list (map (\<lambda>ca. UID (Claim ca)) cas) c) (map AllocatedGpu_UUID (Devices g)))"
  using assms(3)
proof (induction cas arbitrary: av allocated)
  case Nil
  then show ?case by simp
next
  case (Cons ca cas)
  show ?case
  proof (cases "UID (Claim ca) = c")
    case True
    with Cons.prems assms(1,2)
    have "allocate_claims pick ac cas av
            (allocated(c := allocated c @ map AllocatedGpu_UUID (Devices g))) = Inr allocated'"
      by (simp add: Let_def)
    from Cons.IH [OF this] True show ?thesis by simp
  next
    case False
    from Cons.prems obtain av1 allocated1 where
      r: "allocate_claims pick ac cas av1 allocated1 = Inr allocated'"
      and same: "allocated1 c = allocated c"
      using False
      by (auto simp: Let_def split: option.splits ClaimParameters.splits prod.splits)
    from Cons.IH [OF r] same False show ?thesis by simp
  qed
qed

lemma allocate_claims_committed_once:
  assumes "map_of (claims_of crd) c = Some a" and "AllocatedDevices_Gpu a = Some g"
    and "count_list (map (\<lambda>ca. UID (Claim ca)) gpucas) c = 1"
    and "gpudriver_allocate pick crd gpucas = Inr allocated"
  shows "allocated c = map AllocatedGpu_UUID (Devices g)"
  using allocate_claims_committed [OF assms(1,2) assms(4) [unfolded gpudriver_allocate_def]] assms(3)
  by simp

lemma committed_devices_not_available:
  assumes "(c, a) \<in> set (claims_of crd)"
  shows "gpu_uuids a \<inter> fst ` set (remove_allocated (claims_of crd)
            (add_available (AllocatableDevices (Spec crd)) [])) = {}"
  using assms unfolding remove_allocated_keys by auto

text \<open>
  C7. The branch for a committed claim appends to \<open>allocated[claimUID]\<close>, where the
  branch for a new claim assigns. For a batch that names a committed claim twice, as the
  batch of a pod with two entries for one claim does, the output for the claim is its
  assignment twice over, not the assignment; \<open>gpudriver.UnsuitableNode\<close> then finds two
  devices for a count of one and marks the node unsuitable.
\<close>

theorem C7_claim_twice_in_batch_doubles_assignment:
  "map_sum id (\<lambda>allocated. allocated ''claim-1'')
     (gpudriver_allocate pick (example_record (Some [(''claim-1'', allocated_devices [''gpu-a''])]))
        [example_ca ''claim-1'' 1, example_ca ''claim-1'' 1])
     = Inr [''gpu-a'', ''gpu-a'']
   \<and> driver_unsuitableNode pick no_fault
       (example_world (Some [(''claim-1'', allocated_devices [''gpu-a''])]) [])
       [example_ca ''claim-1'' 1, example_ca ''claim-1'' 1] ''node-1''
     = (example_world (Some [(''claim-1'', allocated_devices [''gpu-a''])]) [],
        mark_unsuitable ''node-1'' [example_ca ''claim-1'' 1, example_ca ''claim-1'' 1], None)"
  by (simp add: driver_unsuitableNode_def gpudriver_UnsuitableNode_def gpudriver_allocate_def
      AllocatableDevice_Type_def AllocatedDevices_Type_def
      client_Get_def no_fault_simps example_world_def example_record_def example_ca_def
      example_claim_def example_gpu_def NodeAllocationStateStatusReady_def make_claims_def
      claims_of_def VisitNode_def Set_def Exists_def allocated_devices_def)

end
